theory Spec2Isabelle
  imports Main "HOL-Library.List_Lexorder" "HOL-Library.Char_ord"
begin

section \<open>The cgap extraction job of wrangler/jobs/cgap\_extraction.py\<close>

text \<open>
  The job reads the warehouse, calls its collaborators (the entity resolver, the labware
  classifier, the request builders and the Sequencescape client), writes the warehouse
  and logs. The model threads the warehouse through the functions that touch it, and
  every function returns, next to its result, the list of the calls it made, in order.
  A collaborator is a field of the environment; it returns a value or raises
  (\<open>Inl\<close>). An exception that nothing catches is the \<open>Inl\<close> result of the job.
  A call of a collaborator is listed when it is made, also when it raises; a statement
  of the warehouse is listed when the warehouse has carried it out.
\<close>

subsection \<open>Data\<close>

text \<open>
  Modelled from the spec: \<open>LabwareType\<close> is declared in
  wrangler/helpers/general\_helpers.py, which is not among the sources. \<open>PLATE\<close> and
  \<open>TUBE_RACK\<close> are the two members the job names; \<open>OTHER_LABWARE\<close> stands for any
  other value the classifier may return, which the job's last branch handles.
\<close>

datatype LabwareType = PLATE | TUBE_RACK | OTHER_LABWARE string

datatype error =
    CollaboratorError string
  | UnhandledLabwareType LabwareType
  | IndexError
  | KeyError string
  | DatabaseError string

text \<open>
  A row of the warehouse table, as \<open>SELECT *\<close> returns it: the columns the job and its
  queries name, and the remaining ones as they come. \<open>wrangled\<close> is \<open>None\<close> for SQL NULL.
\<close>

record mlwh_row =
  container_barcode :: string
  study :: string
  destination :: string
  wrangled :: "nat option"
  other_columns :: "(string \<times> string) list"

text \<open>\<open>SSResponse = namedtuple("SSResponse", "barcode body successful")\<close>\<close>

record SSResponse =
  barcode :: string
  body :: string
  successful :: bool

text \<open>The warehouse: its tables by name, and the value \<open>NOW()\<close> has in a statement.\<close>

record warehouse =
  tables :: "string \<rightharpoonup> mlwh_row list"
  now :: nat

datatype event =
    LogInfo string
  | LogError string
  | ExecuteSelect string string
  | EntityLookup string string
  | Classify string
  | BuildBody LabwareType string
  | Submit LabwareType string string
  | ExecuteUpdate string "string list"

text \<open>
  The configuration of the Flask application, the constants of wrangler/constants.py and
  the helpers the job imports. None of them is among the sources, so they are parameters.
\<close>

record env =
  MLWH_DB_TABLE :: string
  CGAP_EXTRACTION_DESTINATION :: string
  PLATE_PURPOSE_ENTITY :: string
  LYSATE_TR_PURPOSE :: string
  STUDY_ENTITY :: string
  LYSATE_PLATE_PURPOSE :: string
  get_entity_uuid :: "string \<Rightarrow> string \<Rightarrow> error + string"
  determine_labware_type :: "string \<Rightarrow> mlwh_row list \<Rightarrow> error + LabwareType"
  create_plate_body ::
    "string \<Rightarrow> mlwh_row list \<Rightarrow> string option \<Rightarrow> string option \<Rightarrow> error + string"
  create_plate :: "string \<Rightarrow> error + (string \<times> nat)"
  create_tube_rack_body ::
    "string \<Rightarrow> mlwh_row list \<Rightarrow> string option \<Rightarrow> string option \<Rightarrow> error + string"
  create_tube_rack :: "string \<Rightarrow> error + (string \<times> nat)"

text \<open>The keyword arguments of \<open>create_labwares\<close>; an absent one defaults to \<open>{}\<close>.\<close>

record kwargs =
  study_uuids :: "string \<rightharpoonup> string"
  plate_purpose_uuids :: "LabwareType \<rightharpoonup> string"

text \<open>The members of \<open>http.HTTPStatus\<close> the sources name.\<close>

definition HTTP_OK :: nat where "HTTP_OK = 200"
definition HTTP_CREATED :: nat where "HTTP_CREATED = 201"
definition HTTP_NOT_FOUND :: nat where "HTTP_NOT_FOUND = 404"
definition HTTP_INTERNAL_SERVER_ERROR :: nat where "HTTP_INTERNAL_SERVER_ERROR = 500"

subsection \<open>Library functions of Python\<close>

text \<open>\<open>sep.join(xs)\<close>\<close>

fun join :: "string \<Rightarrow> string list \<Rightarrow> string" where
  "join sep [] = []"
| "join sep [x] = x"
| "join sep (x # y # ys) = x @ sep @ join sep (y # ys)"

text \<open>
  \<open>itertools.groupby\<close> over a list, each group made a list at once: the maximal runs of
  consecutive elements with equal keys, each with its key.
\<close>

function groupby :: "('a \<Rightarrow> 'k) \<Rightarrow> 'a list \<Rightarrow> ('k \<times> 'a list) list" where
  "groupby f [] = []"
| "groupby f (x # xs) =
     (f x, x # takeWhile (\<lambda>y. f y = f x) xs) # groupby f (dropWhile (\<lambda>y. f y = f x) xs)"
  by pat_completeness auto
termination
  by (relation "measure (\<lambda>(f, xs). length xs)") (auto simp: length_dropWhile_le less_Suc_eq_le)

subsection \<open>The warehouse queries\<close>

text \<open>
  The code pastes the name of the table and the destination into the text of its
  statements (the barcodes of the update are passed as parameters). A string stands
  for itself there when, for the table, it is a name of letters, digits and underscores,
  and when, for the destination, written between quotes, it has no quote and no
  backslash. With another string the text is another statement than the one the
  definitions below give the meaning of; what depends on the rows a statement selects
  is stated for strings that stand for themselves.
\<close>

definition sql_name :: "string \<Rightarrow> bool" where
  "sql_name s =
     (s \<noteq> [] \<and>
      list_all (\<lambda>c. c \<in> set ''abcdefghijklmnopqrstuvwxyzABCDEFGHIJKLMNOPQRSTUVWXYZ0123456789_'') s)"

definition sql_literal :: "string \<Rightarrow> bool" where
  "sql_literal s = list_all (\<lambda>c. c \<noteq> CHR 0x27 \<and> c \<noteq> CHR 0x5C) s"

text \<open>
  \<open>get_unwrangled_labware\<close>, for a table and a destination that stand for themselves:
  the rows of the table with the destination and no wrangled mark, ordered by container
  barcode. A table the warehouse does not have makes \<open>cursor.execute\<close> raise.
\<close>

definition get_unwrangled_labware ::
  "string \<Rightarrow> string \<Rightarrow> warehouse \<Rightarrow> (error + mlwh_row list) \<times> event list" where
  "get_unwrangled_labware table dest wh =
     (case tables wh table of
        None \<Rightarrow> (Inl (DatabaseError table), [])
      | Some rows \<Rightarrow>
          (Inr (sort_key container_barcode
                  (filter (\<lambda>r. destination r = dest \<and> wrangled r = None) rows)),
           [ExecuteSelect table dest]))"

text \<open>
  \<open>update_wrangled_labware\<close>, for a table that stands for itself: sets the wrangled mark
  of every row whose container barcode is in the list, and commits. With an empty list
  the statement ends in \<open>IN ()\<close>, which the server rejects.
\<close>

definition update_wrangled_labware ::
  "string \<Rightarrow> string list \<Rightarrow> warehouse \<Rightarrow> (error + unit) \<times> warehouse \<times> event list" where
  "update_wrangled_labware table container_barcodes wh =
     (case tables wh table of
        None \<Rightarrow> (Inl (DatabaseError table), wh, [])
      | Some rows \<Rightarrow>
          if container_barcodes = []
          then (Inl (DatabaseError ''IN ()''), wh, [])
          else (Inr (),
                wh\<lparr>tables := (tables wh)(table \<mapsto>
                      map (\<lambda>r. if container_barcode r \<in> set container_barcodes
                                then r\<lparr>wrangled := Some (now wh)\<rparr> else r) rows)\<rparr>,
                [ExecuteUpdate table container_barcodes]))"

subsection \<open>The resolver\<close>

text \<open>
  \<open>get_study_uuids\<close>: the dictionary comprehension, one \<open>get_entity_uuid\<close> call for each
  study of the iterable in turn; the first call that raises ends it.
\<close>

fun study_uuids_from ::
  "env \<Rightarrow> (string \<rightharpoonup> string) \<Rightarrow> string list \<Rightarrow> (error + (string \<rightharpoonup> string)) \<times> event list" where
  "study_uuids_from env m [] = (Inr m, [])"
| "study_uuids_from env m (s # ss) =
     (case get_entity_uuid env (STUDY_ENTITY env) s of
        Inl e \<Rightarrow> (Inl e, [EntityLookup (STUDY_ENTITY env) s])
      | Inr u \<Rightarrow>
          (case study_uuids_from env (m(s \<mapsto> u)) ss of
             (res, evs) \<Rightarrow> (res, EntityLookup (STUDY_ENTITY env) s # evs)))"

definition get_study_uuids ::
  "env \<Rightarrow> string list \<Rightarrow> (error + (string \<rightharpoonup> string)) \<times> event list" where
  "get_study_uuids env studies = study_uuids_from env Map.empty studies"

definition get_plate_purpose_uuid :: "env \<Rightarrow> (error + string) \<times> event list" where
  "get_plate_purpose_uuid env =
     (get_entity_uuid env (PLATE_PURPOSE_ENTITY env) (LYSATE_PLATE_PURPOSE env),
      [EntityLookup (PLATE_PURPOSE_ENTITY env) (LYSATE_PLATE_PURPOSE env)])"

definition get_tube_rack_purpose_uuid :: "env \<Rightarrow> (error + string) \<times> event list" where
  "get_tube_rack_purpose_uuid env =
     (get_entity_uuid env (PLATE_PURPOSE_ENTITY env) (LYSATE_TR_PURPOSE env),
      [EntityLookup (PLATE_PURPOSE_ENTITY env) (LYSATE_TR_PURPOSE env)])"

subsection \<open>The generator \<open>create_labwares\<close>\<close>

text \<open>
  One pass of the loop of \<open>create_labwares\<close>, for one group of rows: from the top of the
  loop body to the \<open>yield\<close>, or to the exception that ends the generator.
\<close>

definition create_labware ::
  "env \<Rightarrow> kwargs \<Rightarrow> string \<times> mlwh_row list \<Rightarrow> (error + SSResponse) \<times> event list" where
  "create_labware env kw g =
     (case g of (bc, container_rows) \<Rightarrow>
       (case determine_labware_type env bc container_rows of
          Inl e \<Rightarrow> (Inl e, [Classify bc])
        | Inr labware_type \<Rightarrow>
           (case container_rows of
              [] \<Rightarrow> (Inl IndexError, [Classify bc])
            | r0 # _ \<Rightarrow>
               (let study_uuid = study_uuids kw (study r0) in
                if labware_type = PLATE then
                  (case create_plate_body env bc container_rows study_uuid
                          (plate_purpose_uuids kw PLATE) of
                     Inl e \<Rightarrow> (Inl e, [Classify bc, BuildBody PLATE bc])
                   | Inr labware_body \<Rightarrow>
                      (case create_plate env labware_body of
                         Inl e \<Rightarrow>
                           (Inl e, [Classify bc, BuildBody PLATE bc, Submit PLATE bc labware_body])
                       | Inr (response, status_code) \<Rightarrow>
                           (Inr \<lparr>barcode = bc, body = response,
                                 successful = (status_code = HTTP_CREATED)\<rparr>,
                            [Classify bc, BuildBody PLATE bc, Submit PLATE bc labware_body])))
                else if labware_type = TUBE_RACK then
                  (case create_tube_rack_body env bc container_rows study_uuid
                          (plate_purpose_uuids kw TUBE_RACK) of
                     Inl e \<Rightarrow> (Inl e, [Classify bc, BuildBody TUBE_RACK bc])
                   | Inr labware_body \<Rightarrow>
                      (case create_tube_rack env labware_body of
                         Inl e \<Rightarrow>
                           (Inl e,
                            [Classify bc, BuildBody TUBE_RACK bc, Submit TUBE_RACK bc labware_body])
                       | Inr (response, status_code) \<Rightarrow>
                           (Inr \<lparr>barcode = bc, body = response,
                                 successful = (status_code = HTTP_CREATED)\<rparr>,
                            [Classify bc, BuildBody TUBE_RACK bc,
                             Submit TUBE_RACK bc labware_body])))
                else (Inl (UnhandledLabwareType labware_type), [Classify bc])))))"

subsection \<open>The loop of \<open>run\<close> over the responses\<close>

text \<open>
  \<open>run\<close> iterates \<open>groupby(ss_responses, lambda x: x.successful)\<close> where \<open>ss_responses\<close>
  is the generator: nothing of \<open>create_labwares\<close> runs before the loop asks for a
  response. The generator's state is the list of the groups of rows it has not reached.

  \<open>grouper\<close> is \<open>list(responses)\<close> after the first response of a group: it asks the
  generator for responses while their key is the group's. It stops at the end of the
  generator (no response is kept back) or at the first response with another key, which
  \<open>groupby\<close> keeps as the first response of the next group. The result is the list of
  the responses after the first, the response kept back, and the generator's state.
\<close>

fun grouper ::
  "env \<Rightarrow> kwargs \<Rightarrow> bool \<Rightarrow> (string \<times> mlwh_row list) list \<Rightarrow>
   (error + (SSResponse list \<times> SSResponse option \<times> (string \<times> mlwh_row list) list)) \<times> event list" where
  "grouper env kw tgtkey [] = (Inr ([], None, []), [])"
| "grouper env kw tgtkey (g # gs) =
     (case create_labware env kw g of
        (Inl e, evs) \<Rightarrow> (Inl e, evs)
      | (Inr r, evs) \<Rightarrow>
          if successful r = tgtkey then
            (case grouper env kw tgtkey gs of
               (Inl e, evs') \<Rightarrow> (Inl e, evs @ evs')
             | (Inr (rs, currvalue, gs'), evs') \<Rightarrow> (Inr (r # rs, currvalue, gs'), evs @ evs'))
          else (Inr ([], Some r, gs), evs))"

text \<open>The body of the \<open>for\<close> loop of \<open>run\<close>, for one group of responses.\<close>

definition report_group ::
  "env \<Rightarrow> bool \<Rightarrow> SSResponse list \<Rightarrow> warehouse \<Rightarrow> (error + unit) \<times> warehouse \<times> event list" where
  "report_group env is_successful response_list wh =
     (let labware_barcodes = map barcode response_list in
      if is_successful then
        (case update_wrangled_labware (MLWH_DB_TABLE env) labware_barcodes wh of
           (Inl e, wh', evs) \<Rightarrow> (Inl e, wh', evs)
         | (Inr _, wh', evs) \<Rightarrow>
             (Inr (), wh',
              evs @ [LogInfo (''The following labware were successfully created: ''
                              @ join '','' labware_barcodes)]))
      else
        (Inr (), wh,
         LogError (''The following labware failed to be created: ''
                   @ join '','' labware_barcodes)
         # map (\<lambda>response. LogError (body response)) response_list))"

text \<open>
  The \<open>for\<close> loop. \<open>currvalue\<close> is the response \<open>groupby\<close> has kept back, if any. With
  none kept back, \<open>groupby\<close> asks the generator for the first response of the next group,
  and the loop ends when the generator does.
\<close>

function for_groups ::
  "env \<Rightarrow> kwargs \<Rightarrow> SSResponse option \<Rightarrow> (string \<times> mlwh_row list) list \<Rightarrow> warehouse \<Rightarrow>
   (error + unit) \<times> warehouse \<times> event list" where
  "for_groups env kw None [] wh = (Inr (), wh, [])"
| "for_groups env kw None (g # gs) wh =
     (case create_labware env kw g of
        (Inl e, evs) \<Rightarrow> (Inl e, wh, evs)
      | (Inr r, evs) \<Rightarrow>
          (case for_groups env kw (Some r) gs wh of
             (res, wh', evs') \<Rightarrow> (res, wh', evs @ evs')))"
| "for_groups env kw (Some r) gs wh =
     (case grouper env kw (successful r) gs of
        (Inl e, evs) \<Rightarrow> (Inl e, wh, evs)
      | (Inr (rs, currvalue, gs'), evs) \<Rightarrow>
          (case report_group env (successful r) (r # rs) wh of
             (Inl e, wh', evs') \<Rightarrow> (Inl e, wh', evs @ evs')
           | (Inr _, wh', evs') \<Rightarrow>
               (case for_groups env kw currvalue gs' wh' of
                  (res, wh'', evs'') \<Rightarrow> (res, wh'', evs @ evs' @ evs''))))"
  by pat_completeness auto
termination
proof -
  have shorter: "(cv = None \<and> gs' = []) \<or> (cv \<noteq> None \<and> length gs' < length gs)"
    if "grouper env kw k gs = (Inr (rs, cv, gs'), evs)" for env kw k gs rs cv gs' evs
    using that
  proof (induction gs arbitrary: rs evs)
    case Nil
    then show ?case by simp
  next
    case (Cons g gs)
    then show ?case
      by (fastforce split: prod.splits sum.splits if_splits)
  qed
  show ?thesis
    by (relation "measure (\<lambda>(env, kw, cv, gs, wh). 2 * length gs + (if cv = None then 0 else 1))")
       (auto dest: shorter [OF sym])
qed

subsection \<open>\<open>run\<close>\<close>

text \<open>
  The set \<open>{row["study"] for row in mlwh_rows}\<close> is iterated once for each of its
  elements. Python leaves the order open; the model takes the order of \<open>remdups\<close>, and
  nothing below depends on it but the order of the study lookups among themselves.
\<close>

definition run :: "env \<Rightarrow> warehouse \<Rightarrow> (error + unit) \<times> warehouse \<times> event list" where
  "run env wh =
     (case get_unwrangled_labware (MLWH_DB_TABLE env) (CGAP_EXTRACTION_DESTINATION env) wh of
        (Inl e, evs0) \<Rightarrow> (Inl e, wh, LogInfo ''Starting cgap extraction job'' # evs0)
      | (Inr mlwh_rows, evs0) \<Rightarrow>
          if length mlwh_rows = 0
          then (Inr (), wh, LogInfo ''Starting cgap extraction job'' # evs0)
          else
            (case get_study_uuids env (remdups (map study mlwh_rows)) of
               (Inl e, evs1) \<Rightarrow> (Inl e, wh, LogInfo ''Starting cgap extraction job'' # evs0 @ evs1)
             | (Inr uuids, evs1) \<Rightarrow>
                 (case get_plate_purpose_uuid env of
                    (Inl e, evs2) \<Rightarrow>
                      (Inl e, wh, LogInfo ''Starting cgap extraction job'' # evs0 @ evs1 @ evs2)
                  | (Inr plate_purpose_uuid, evs2) \<Rightarrow>
                      (case get_tube_rack_purpose_uuid env of
                         (Inl e, evs3) \<Rightarrow>
                           (Inl e, wh,
                            LogInfo ''Starting cgap extraction job'' # evs0 @ evs1 @ evs2 @ evs3)
                       | (Inr rack_purpose_uuid, evs3) \<Rightarrow>
                           (case for_groups env
                                   \<lparr>study_uuids = uuids,
                                    plate_purpose_uuids =
                                      [PLATE \<mapsto> plate_purpose_uuid,
                                       TUBE_RACK \<mapsto> rack_purpose_uuid]\<rparr>
                                   None (groupby container_barcode mlwh_rows) wh of
                              (res, wh', evs4) \<Rightarrow>
                                (res, wh',
                                 LogInfo ''Starting cgap extraction job''
                                 # evs0 @ evs1 @ evs2 @ evs3 @ evs4))))))"

subsection \<open>\<open>run\<close> with a study lookup that raises\<close>






subsection \<open>Reading a list of calls\<close>

text \<open>The calls \<open>create_labwares\<close> makes for a container, and those of the loop of \<open>run\<close>.\<close>

fun is_container_call :: "event \<Rightarrow> bool" where
  "is_container_call (Classify bc) = True"
| "is_container_call (BuildBody t bc) = True"
| "is_container_call (Submit t bc b) = True"
| "is_container_call e = False"

fun is_report :: "event \<Rightarrow> bool" where
  "is_report (ExecuteUpdate table bs) = True"
| "is_report (LogInfo m) = True"
| "is_report (LogError m) = True"
| "is_report e = False"

fun is_submit :: "event \<Rightarrow> bool" where
  "is_submit (Submit t bc b) = True"
| "is_submit e = False"

text \<open>The barcodes of the containers submitted, in the order of the submissions.\<close>

definition submitted :: "event list \<Rightarrow> string list" where
  "submitted evs = concat (map (\<lambda>e. case e of Submit t bc b \<Rightarrow> [bc] | _ \<Rightarrow> []) evs)"

text \<open>The lists of barcodes of the marker updates, one list for each statement, in order.\<close>

definition marked :: "event list \<Rightarrow> string list list" where
  "marked evs = concat (map (\<lambda>e. case e of ExecuteUpdate table bs \<Rightarrow> [bs] | _ \<Rightarrow> []) evs)"

text \<open>The entity and the name of every resolver lookup, in order.\<close>

definition lookups :: "event list \<Rightarrow> (string \<times> string) list" where
  "lookups evs = concat (map (\<lambda>e. case e of EntityLookup entity name \<Rightarrow> [(entity, name)] | _ \<Rightarrow> []) evs)"

text \<open>
  Every marker update names only containers submitted earlier in the list (or among
  \<open>seen\<close>, those submitted before the list starts).
\<close>

fun marks_follow_submits :: "string list \<Rightarrow> event list \<Rightarrow> bool" where
  "marks_follow_submits seen [] = True"
| "marks_follow_submits seen (Submit t bc b # evs) = marks_follow_submits (bc # seen) evs"
| "marks_follow_submits seen (ExecuteUpdate table bs # evs) =
     (set bs \<subseteq> set seen \<and> marks_follow_submits seen evs)"
| "marks_follow_submits seen (e # evs) = marks_follow_submits seen evs"

text \<open>No container is submitted after a marker update.\<close>

fun no_submit_after_mark :: "event list \<Rightarrow> bool" where
  "no_submit_after_mark [] = True"
| "no_submit_after_mark (ExecuteUpdate table bs # evs) =
     (submitted evs = [] \<and> no_submit_after_mark evs)"
| "no_submit_after_mark (e # evs) = no_submit_after_mark evs"

text \<open>The calls for one container, when none raises: classify, build, submit.\<close>

fun container_block :: "string \<Rightarrow> event list \<Rightarrow> bool" where
  "container_block bc [Classify b1, BuildBody t b2, Submit t' b3 payload] =
     (b1 = bc \<and> b2 = bc \<and> b3 = bc \<and> t' = t)"
| "container_block bc evs = False"

text \<open>The row as \<open>update_wrangled_labware\<close> leaves it, for a list of barcodes.\<close>

definition mark_row :: "nat \<Rightarrow> string list \<Rightarrow> mlwh_row \<Rightarrow> mlwh_row" where
  "mark_row t bs r = (if container_barcode r \<in> set bs then r\<lparr>wrangled := Some t\<rparr> else r)"

section \<open>The routes of wrangler/racks.py\<close>

text \<open>
  A Python exception, as far as the routes look at it: the name of its class, whether it
  is an instance of \<open>ValueError\<close> (of the class or of a subclass; if not, it is an
  instance of another subclass of \<open>Exception\<close>), the text \<open>str(e)\<close>, and its attribute
  \<open>message\<close>, if the object has one.
\<close>

record py_exception =
  class_name :: string
  is_value_error :: bool
  as_str :: string
  message :: "string option"

text \<open>\<open>ValueError(m)\<close>: the built-in class of Python 3 gives its instances no \<open>message\<close>.\<close>

definition ValueError :: "string \<Rightarrow> py_exception" where
  "ValueError m =
     \<lparr>class_name = ''ValueError'', is_value_error = True, as_str = m, message = None\<rparr>"

text \<open>What reading the attribute \<open>name\<close> raises for an object of class \<open>c\<close> that has none.\<close>

definition AttributeError :: "string \<Rightarrow> string \<Rightarrow> py_exception" where
  "AttributeError c name =
     \<lparr>class_name = ''AttributeError'', is_value_error = False,
      as_str = c @ '' object has no attribute '' @ name, message = None\<rparr>"

text \<open>The calls of \<open>app.logger\<close>: \<open>debug\<close>, \<open>warning\<close> and \<open>error\<close>.\<close>

datatype route_event = LogDebug string | LogWarning string | LogRouteError string

text \<open>What a view returns: a text, or the dictionary \<open>{"error": ...}\<close>; with its status.\<close>

datatype response_body = Text string | ErrorBody string

text \<open>The helpers of wrangler/helper.py, which is not among the sources.\<close>

record route_env =
  parse_tube_rack_csv :: "string \<Rightarrow> py_exception + response_body \<times> nat"
  wrangle_tubes :: "string \<Rightarrow> py_exception + string"
  send_request_to_sequencescape :: "string \<Rightarrow> py_exception + unit"

text \<open>The route \<open>/tube_rack/<tube_rack_barcode>\<close>.\<close>

definition get_tubes_from_rack_barcode ::
  "route_env \<Rightarrow> string \<Rightarrow> (py_exception + response_body \<times> nat) \<times> route_event list" where
  "get_tubes_from_rack_barcode renv tube_rack_barcode =
     (case parse_tube_rack_csv renv tube_rack_barcode of
        Inr response \<Rightarrow> (Inr response, [])
      | Inl e \<Rightarrow>
          if is_value_error e
          then (Inr (ErrorBody (as_str e), HTTP_NOT_FOUND), [LogWarning (as_str e)])
          else (Inr (ErrorBody (''Server error: '' @ as_str e), HTTP_INTERNAL_SERVER_ERROR),
                [LogRouteError (as_str e)]))"

text \<open>
  The two \<open>except\<close> clauses of \<open>wrangle\<close>, of the route \<open>/wrangle/<tube_rack_barcode>\<close>.
  The first logs its warning and reads \<open>e.message\<close>: for an exception without that
  attribute the read raises \<open>AttributeError\<close>, and an exception raised inside an
  \<open>except\<close> clause is not handled by a later clause of the same \<open>try\<close>.
\<close>

definition wrangle_except ::
  "py_exception \<Rightarrow> route_event list \<Rightarrow> (py_exception + response_body \<times> nat) \<times> route_event list" where
  "wrangle_except e evs =
     (if is_value_error e then
        (case message e of
           None \<Rightarrow> (Inl (AttributeError (class_name e) ''message''), evs @ [LogWarning (as_str e)])
         | Some m \<Rightarrow> (Inr (ErrorBody m, HTTP_NOT_FOUND), evs @ [LogWarning (as_str e)]))
      else (Inr (ErrorBody (''Server error: '' @ as_str e), HTTP_NOT_FOUND), evs))"

definition wrangle ::
  "route_env \<Rightarrow> string \<Rightarrow> (py_exception + response_body \<times> nat) \<times> route_event list" where
  "wrangle renv tube_rack_barcode =
     (let evs = [LogDebug (''tube_rack_barcode: '' @ tube_rack_barcode)] in
      case wrangle_tubes renv tube_rack_barcode of
        Inl e \<Rightarrow> wrangle_except e evs
      | Inr tube_request_body \<Rightarrow>
          (case send_request_to_sequencescape renv tube_request_body of
             Inl e \<Rightarrow> wrangle_except e evs
           | Inr _ \<Rightarrow> (Inr (Text ''POST request successfully sent to Sequencescape'', HTTP_OK), evs)))"

text \<open>
  What Flask answers for a request: the response the view returns, or, for an exception
  that the view lets through, its response for an unhandled exception, with the status
  INTERNAL\_SERVER\_ERROR. (Flask is a library, not part of the sources.)
\<close>

definition flask_response :: "py_exception + response_body \<times> nat \<Rightarrow> response_body \<times> nat" where
  "flask_response result =
     (case result of
        Inr response \<Rightarrow> response
      | Inl e \<Rightarrow> (Text ''Internal Server Error'', HTTP_INTERNAL_SERVER_ERROR))"

section \<open>Sample inputs\<close>

subsection \<open>A sample warehouse and sample collaborators\<close>

text \<open>
  Every container is a plate but \<open>R\<close>, a tube rack, and
  \<open>X\<close>, which the classifier does not know. Sequencescape creates every labware but \<open>B\<close>.
\<close>

definition sample_row :: "string \<Rightarrow> string \<Rightarrow> mlwh_row" where
  "sample_row bc st =
     \<lparr>container_barcode = bc, study = st, destination = ''CGAP'', wrangled = None,
      other_columns = []\<rparr>"

definition sample_env :: env where
  "sample_env =
     \<lparr>MLWH_DB_TABLE = ''cgap_heron'',
      CGAP_EXTRACTION_DESTINATION = ''CGAP'',
      PLATE_PURPOSE_ENTITY = ''plate_purposes'',
      LYSATE_TR_PURPOSE = ''TR Lysate'',
      STUDY_ENTITY = ''studies'',
      LYSATE_PLATE_PURPOSE = ''Plate Lysate'',
      get_entity_uuid = (\<lambda>entity name. Inr (''uuid of '' @ name)),
      determine_labware_type =
        (\<lambda>bc rows. if bc = ''X'' then Inr (OTHER_LABWARE ''box'')
                    else if bc = ''R'' then Inr TUBE_RACK else Inr PLATE),
      create_plate_body = (\<lambda>bc rows study_uuid purpose_uuid. Inr (''plate '' @ bc)),
      create_plate =
        (\<lambda>b. if b = ''plate B'' then Inr (''B is taken'', 422) else Inr (''created'', 201)),
      create_tube_rack_body = (\<lambda>bc rows study_uuid purpose_uuid. Inr (''rack '' @ bc)),
      create_tube_rack = (\<lambda>b. Inr (''created'', 201))\<rparr>"

definition sample_wh :: "mlwh_row list \<Rightarrow> warehouse" where
  "sample_wh rows = \<lparr>tables = [''cgap_heron'' \<mapsto> rows], now = 7\<rparr>"

text \<open>The containers \<open>A\<close>, \<open>B\<close> and \<open>C\<close>, out of order in the table, \<open>A\<close> with two rows.\<close>

definition abc_rows :: "mlwh_row list" where
  "abc_rows =
     [sample_row ''C'' ''s1'', sample_row ''A'' ''s1'', sample_row ''B'' ''s2'',
      sample_row ''A'' ''s1'']"

subsection \<open>Other sample inputs\<close>

text \<open>A warehouse whose only row for the destination is wrangled already.\<close>

definition wrangled_wh :: warehouse where
  "wrangled_wh =
     sample_wh [(sample_row ''A'' ''s1'')\<lparr>wrangled := Some 3\<rparr>,
                (sample_row ''B'' ''s1'')\<lparr>destination := ''elsewhere''\<rparr>]"

text \<open>
  Helpers that know no rack \<open>V\<close> (a \<open>ValueError\<close>) and cannot reach Sequencescape for
  \<open>O\<close>.
\<close>

definition sample_route_env :: route_env where
  "sample_route_env =
     \<lparr>parse_tube_rack_csv =
        (\<lambda>bc. if bc = ''V'' then Inl (ValueError ''no rack V'')
              else Inr (Text (''layout of '' @ bc), HTTP_OK)),
      wrangle_tubes =
        (\<lambda>bc. if bc = ''V'' then Inl (ValueError ''no rack V'') else Inr (''tubes of '' @ bc)),
      send_request_to_sequencescape =
        (\<lambda>b. if b = ''tubes of O''
             then Inl \<lparr>class_name = ''ConnectionError'', is_value_error = False,
                       as_str = ''connection refused'', message = None\<rparr>
             else Inr ())\<rparr>"

text \<open>What the sample warehouse returns for \<open>abc_rows\<close>, and what Sequencescape answers.\<close>

definition abc_fetched :: "mlwh_row list" where
  "abc_fetched =
     [sample_row ''A'' ''s1'', sample_row ''A'' ''s1'', sample_row ''B'' ''s2'',
      sample_row ''C'' ''s1'']"

definition abc_responses :: "SSResponse list" where
  "abc_responses =
     [\<lparr>barcode = ''A'', body = ''created'', successful = True\<rparr>,
      \<lparr>barcode = ''B'', body = ''B is taken'', successful = False\<rparr>,
      \<lparr>barcode = ''C'', body = ''created'', successful = True\<rparr>]"

text \<open>
  The containers \<open>A\<close> to \<open>D\<close>, out of order in the table, \<open>A\<close> with two rows: what the sample
  warehouse returns for them, and what Sequencescape answers.
\<close>

definition abcd_rows :: "mlwh_row list" where
  "abcd_rows =
     [sample_row ''D'' ''s1'', sample_row ''A'' ''s1'', sample_row ''C'' ''s1'',
      sample_row ''B'' ''s2'', sample_row ''A'' ''s1'']"

definition abcd_fetched :: "mlwh_row list" where
  "abcd_fetched =
     [sample_row ''A'' ''s1'', sample_row ''A'' ''s1'', sample_row ''B'' ''s2'',
      sample_row ''C'' ''s1'', sample_row ''D'' ''s1'']"

definition abcd_responses :: "SSResponse list" where
  "abcd_responses =
     [\<lparr>barcode = ''A'', body = ''created'', successful = True\<rparr>,
      \<lparr>barcode = ''B'', body = ''B is taken'', successful = False\<rparr>,
      \<lparr>barcode = ''C'', body = ''created'', successful = True\<rparr>,
      \<lparr>barcode = ''D'', body = ''created'', successful = True\<rparr>]"

text \<open>The containers \<open>A\<close>, \<open>X\<close> and \<open>Z\<close>; the sample classifier does not know \<open>X\<close>.\<close>

definition axz_rows :: "mlwh_row list" where
  "axz_rows = [sample_row ''Z'' ''s1'', sample_row ''A'' ''s1'', sample_row ''X'' ''s1'']"

definition axz_fetched :: "mlwh_row list" where
  "axz_fetched = [sample_row ''A'' ''s1'', sample_row ''X'' ''s1'', sample_row ''Z'' ''s1'']"

section \<open>Properties of the job\<close>

subsection \<open>Lists of calls\<close>

lemma submitted_append: "submitted (a @ b) = submitted a @ submitted b"
  by (simp add: submitted_def)

lemma marked_append: "marked (a @ b) = marked a @ marked b"
  by (simp add: marked_def)

lemma lookups_append: "lookups (a @ b) = lookups a @ lookups b"
  by (simp add: lookups_def)

subsection \<open>\<open>groupby\<close>\<close>

lemma groupby_concat: "concat (map snd (groupby f xs)) = xs"
  by (induction f xs rule: groupby.induct) auto

lemma groupby_groups:
  "(k, g) \<in> set (groupby f xs) \<Longrightarrow> g \<noteq> [] \<and> f (hd g) = k \<and> set g \<subseteq> set xs \<and> (\<forall>x\<in>set g. f x = k)"
proof (induction f xs arbitrary: k g rule: groupby.induct)
  case (1 f)
  then show ?case by simp
next
  case (2 f x xs)
  let ?d = "dropWhile (\<lambda>y. f y = f x) xs"
  from "2.prems" have "(k = f x \<and> g = x # takeWhile (\<lambda>y. f y = f x) xs) \<or> (k, g) \<in> set (groupby f ?d)"
    by simp
  then show ?case
  proof
    assume "k = f x \<and> g = x # takeWhile (\<lambda>y. f y = f x) xs"
    then have k: "k = f x" and g: "g = x # takeWhile (\<lambda>y. f y = f x) xs" by blast+
    show ?thesis unfolding k g by (auto dest: set_takeWhileD)
  next
    assume a: "(k, g) \<in> set (groupby f ?d)"
    have "set ?d \<subseteq> set xs" by (auto dest: set_dropWhileD)
    then show ?thesis using "2.IH" [OF a] by auto
  qed
qed

lemma groupby_keys: "fst ` set (groupby f xs) = f ` set xs"
proof (induction f xs rule: groupby.induct)
  case (1 f)
  then show ?case by simp
next
  case (2 f x xs)
  have "set xs = set (takeWhile (\<lambda>y. f y = f x) xs) \<union> set (dropWhile (\<lambda>y. f y = f x) xs)"
    using set_append [of "takeWhile (\<lambda>y. f y = f x) xs" "dropWhile (\<lambda>y. f y = f x) xs"]
    by simp
  then have "f ` set xs = f ` set (takeWhile (\<lambda>y. f y = f x) xs) \<union> f ` set (dropWhile (\<lambda>y. f y = f x) xs)"
    by (simp add: image_Un)
  moreover have "f ` set (takeWhile (\<lambda>y. f y = f x) xs) \<subseteq> {f x}"
    by (auto dest: set_takeWhileD)
  ultimately show ?case using 2 by auto
qed


lemma groupby_true_groups:
  "concat (map snd (filter fst (groupby f xs))) = filter f xs"
proof (induction f xs rule: groupby.induct)
  case (1 f)
  then show ?case by simp
next
  case (2 f x xs)
  let ?P = "\<lambda>y. f y = f x"
  have split: "filter f xs = filter f (takeWhile ?P xs) @ filter f (dropWhile ?P xs)"
    using filter_append [of f "takeWhile ?P xs" "dropWhile ?P xs"] by simp
  show ?case
  proof (cases "f x")
    case True
    have "filter f (takeWhile ?P xs) = takeWhile ?P xs"
      using True by (auto simp: filter_id_conv dest: set_takeWhileD)
    then show ?thesis using True "2.IH" split by simp
  next
    case False
    have "filter f (takeWhile ?P xs) = []"
      using False by (auto simp: filter_empty_conv dest: set_takeWhileD)
    then show ?thesis using False "2.IH" split by simp
  qed
qed

lemma groupby_successes:
  "concat (map (\<lambda>kg. map barcode (snd kg)) (filter fst (groupby successful rs))) =
     map barcode (filter successful rs)"
proof -
  have "concat (map (\<lambda>kg. map barcode (snd kg)) (filter fst (groupby successful rs))) =
          map barcode (concat (map snd (filter fst (groupby successful rs))))"
    by (simp add: map_concat comp_def)
  then show ?thesis by (simp only: groupby_true_groups)
qed

lemma sorted_dropWhile_notin:
  fixes f :: "'a \<Rightarrow> 'k::linorder"
  shows "sorted (map f xs) \<Longrightarrow> \<forall>z\<in>set xs. k \<le> f z \<Longrightarrow> y \<in> set (dropWhile (\<lambda>z. f z = k) xs) \<Longrightarrow> f y \<noteq> k"
proof (induction xs)
  case Nil
  then show ?case by simp
next
  case (Cons a xs)
  show ?case
  proof (cases "f a = k")
    case True
    then show ?thesis using Cons by auto
  next
    case False
    then have "k < f a" using Cons.prems(2) by (simp add: less_le)
    moreover have "f a \<le> f y" using Cons.prems(1,3) False by auto
    ultimately show ?thesis by auto
  qed
qed

lemma sorted_dropWhile: "sorted (map f xs) \<Longrightarrow> sorted (map f (dropWhile P xs))"
  by (induction xs) auto



lemma groupby_distinct:
  fixes f :: "'a \<Rightarrow> 'k::linorder"
  shows "sorted (map f xs) \<Longrightarrow> distinct (map fst (groupby f xs))"
proof (induction f xs rule: groupby.induct)
  case (1 f)
  then show ?case by simp
next
  case (2 f x xs)
  let ?d = "dropWhile (\<lambda>y. f y = f x) xs"
  have sx: "sorted (map f xs)" and le: "\<forall>z\<in>set xs. f x \<le> f z"
    using "2.prems" by simp_all
  have sd: "sorted (map f ?d)"
    using sx by (rule sorted_dropWhile)
  have "f x \<notin> f ` set ?d"
  proof
    assume "f x \<in> f ` set ?d"
    then obtain y where e: "f x = f y" and y: "y \<in> set ?d" ..
    show False
      using sorted_dropWhile_notin [OF sx le y] e [symmetric] by (rule notE)
  qed
  then have "f x \<notin> fst ` set (groupby f ?d)"
    unfolding groupby_keys .
  then show ?case using "2.IH" [OF sd] by simp
qed

subsection \<open>The resolver\<close>



lemma study_uuids_from_events:
  "study_uuids_from env m ss = (Inr m', evs) \<Longrightarrow> evs = map (EntityLookup (STUDY_ENTITY env)) ss"
proof (induction ss arbitrary: m evs)
  case Nil
  then show ?case by simp
next
  case (Cons a ss)
  then show ?case
    by (auto split: sum.splits prod.splits)
qed

subsection \<open>One container\<close>

lemma create_labware_calls:
  "filter is_container_call (snd (create_labware env kw g)) = snd (create_labware env kw g)"
  "filter is_report (snd (create_labware env kw g)) = []"
  "lookups (snd (create_labware env kw g)) = []"
  "marked (snd (create_labware env kw g)) = []"
  "set (submitted (snd (create_labware env kw g))) \<subseteq> {fst g}"
  by (auto simp: create_labware_def Let_def lookups_def marked_def submitted_def
      split: prod.splits sum.splits list.splits)

lemma create_labware_ok:
  "create_labware env kw g = (Inr r, evs) \<Longrightarrow> barcode r = fst g \<and> submitted evs = [fst g]"
  by (auto simp: create_labware_def Let_def submitted_def
      split: prod.splits sum.splits list.splits if_splits)

lemma create_labware_unrecognised:
  assumes "determine_labware_type env bc rows \<noteq> Inr PLATE"
    and "determine_labware_type env bc rows \<noteq> Inr TUBE_RACK"
    and "rows \<noteq> []"
  shows "create_labware env kw (bc, rows) =
           (Inl (case determine_labware_type env bc rows of
                   Inl e \<Rightarrow> e | Inr t \<Rightarrow> UnhandledLabwareType t),
            [Classify bc])"
  using assms
  by (auto simp: create_labware_def Let_def split: sum.splits list.splits)

subsection \<open>The loop, step by step\<close>

lemma for_groups_first:
  "create_labware env kw g = (Inr r, evs) \<Longrightarrow>
   for_groups env kw None (g # gs) wh =
     (fst (for_groups env kw (Some r) gs wh),
      fst (snd (for_groups env kw (Some r) gs wh)),
      evs @ snd (snd (for_groups env kw (Some r) gs wh)))"
  by (simp split: prod.splits)

lemma for_groups_first_raises:
  "create_labware env kw g = (Inl e, evs) \<Longrightarrow>
   for_groups env kw None (g # gs) wh = (Inl e, wh, evs)"
  by simp

lemma for_groups_group:
  "grouper env kw (successful r) gs = (Inr (rs, cv, gs'), evs) \<Longrightarrow>
   report_group env (successful r) (r # rs) wh = (Inr (), wh', evs') \<Longrightarrow>
   for_groups env kw (Some r) gs wh =
     (fst (for_groups env kw cv gs' wh'),
      fst (snd (for_groups env kw cv gs' wh')),
      evs @ evs' @ snd (snd (for_groups env kw cv gs' wh')))"
  by (simp split: prod.splits)

lemma for_groups_grouper_raises:
  "grouper env kw (successful r) gs = (Inl e, evs) \<Longrightarrow>
   for_groups env kw (Some r) gs wh = (Inl e, wh, evs)"
  by simp

lemma for_groups_report_raises:
  "grouper env kw (successful r) gs = (Inr (rs, cv, gs'), evs) \<Longrightarrow>
   report_group env (successful r) (r # rs) wh = (Inl e, wh', evs') \<Longrightarrow>
   for_groups env kw (Some r) gs wh = (Inl e, wh', evs @ evs')"
  by simp

lemma for_groups_done: "for_groups env kw None [] wh = (Inr (), wh, [])"
  by simp

declare for_groups.simps [simp del]

lemma for_groups_cases [case_names Done First FirstRaises Group GrouperRaises ReportRaises]:
  assumes "\<And>env kw wh. P env kw None [] wh"
    and "\<And>env kw g gs wh r evs. create_labware env kw g = (Inr r, evs) \<Longrightarrow>
           P env kw (Some r) gs wh \<Longrightarrow> P env kw None (g # gs) wh"
    and "\<And>env kw g gs wh e evs. create_labware env kw g = (Inl e, evs) \<Longrightarrow>
           P env kw None (g # gs) wh"
    and "\<And>env kw r gs wh rs cv gs' evs wh' evs'.
           grouper env kw (successful r) gs = (Inr (rs, cv, gs'), evs) \<Longrightarrow>
           report_group env (successful r) (r # rs) wh = (Inr (), wh', evs') \<Longrightarrow>
           P env kw cv gs' wh' \<Longrightarrow> P env kw (Some r) gs wh"
    and "\<And>env kw r gs wh e evs. grouper env kw (successful r) gs = (Inl e, evs) \<Longrightarrow>
           P env kw (Some r) gs wh"
    and "\<And>env kw r gs wh rs cv gs' evs e wh' evs'.
           grouper env kw (successful r) gs = (Inr (rs, cv, gs'), evs) \<Longrightarrow>
           report_group env (successful r) (r # rs) wh = (Inl e, wh', evs') \<Longrightarrow>
           P env kw (Some r) gs wh"
  shows "P env kw cv gs wh"
proof (induction env kw cv gs wh rule: for_groups.induct)
  case (1 env kw wh)
  show ?case by (rule assms(1))
next
  case (2 env kw g gs wh)
  obtain x evs where c: "create_labware env kw g = (x, evs)"
    by (cases "create_labware env kw g")
  show ?case
  proof (cases x)
    case (Inl e)
    then show ?thesis using c assms(3) by blast
  next
    case (Inr r)
    have "P env kw (Some r) gs wh" using "2.IH" [OF c [symmetric] Inr] .
    then show ?thesis using c Inr assms(2) by blast
  qed
next
  case (3 env kw r gs wh)
  obtain x evs where g: "grouper env kw (successful r) gs = (x, evs)"
    by (cases "grouper env kw (successful r) gs")
  show ?case
  proof (cases x)
    case (Inl e)
    then show ?thesis using g assms(5) by blast
  next
    case (Inr b)
    obtain rs cv gs' where b: "b = (rs, cv, gs')" by (cases b)
    obtain y wh' evs' where
      rp: "report_group env (successful r) (r # rs) wh = (y, wh', evs')"
      by (cases "report_group env (successful r) (r # rs) wh")
    show ?thesis
    proof (cases y)
      case (Inl e)
      then show ?thesis using g Inr b rp assms(6) by blast
    next
      case (Inr u)
      have "P env kw cv gs' wh'"
        using "3.IH" [OF g [symmetric] \<open>x = Inr b\<close>, of rs "(cv, gs')" cv gs' y "(wh', evs')" u wh' evs']
          b rp Inr by simp
      then show ?thesis using g \<open>x = Inr b\<close> b rp Inr assms(4) by (metis (full_types) old.unit.exhaust)
    qed
  qed
qed

subsection \<open>What the steps of the loop call\<close>

lemma grouper_no_report: "filter is_report (snd (grouper env kw k gs)) = []"
proof (induction gs)
  case Nil
  then show ?case by simp
next
  case (Cons g gs)
  then show ?case using create_labware_calls(2) [of env kw g]
    by (auto split: prod.splits sum.splits)
qed

lemma grouper_no_lookups: "lookups (snd (grouper env kw k gs)) = []"
proof (induction gs)
  case Nil
  then show ?case by (simp add: lookups_def)
next
  case (Cons g gs)
  then show ?case using create_labware_calls(3) [of env kw g]
    by (auto simp: lookups_append split: prod.splits sum.splits)
qed

lemma grouper_no_marks: "marked (snd (grouper env kw k gs)) = []"
proof (induction gs)
  case Nil
  then show ?case by (simp add: marked_def)
next
  case (Cons g gs)
  then show ?case using create_labware_calls(4) [of env kw g]
    by (auto simp: marked_append split: prod.splits sum.splits)
qed

lemma grouper_submitted: "set (submitted (snd (grouper env kw k gs))) \<subseteq> fst ` set gs"
proof (induction gs)
  case Nil
  then show ?case by (simp add: submitted_def)
next
  case (Cons g gs)
  then show ?case using create_labware_calls(5) [of env kw g]
    by (auto simp: submitted_append split: prod.splits sum.splits)
qed

lemma grouper_result:
  "grouper env kw k gs = (Inr (rs, cv, gs'), evs) \<Longrightarrow>
   set (map barcode rs) \<subseteq> set (submitted evs) \<and>
   (\<forall>r. cv = Some r \<longrightarrow> barcode r \<in> set (submitted evs)) \<and>
   set gs' \<subseteq> set gs"
proof (induction gs arbitrary: rs cv gs' evs)
  case Nil
  then show ?case by simp
next
  case (Cons g gs)
  obtain x ev where c: "create_labware env kw g = (x, ev)"
    by (cases "create_labware env kw g")
  show ?case
  proof (cases x)
    case (Inl e)
    then show ?thesis using Cons.prems c by simp
  next
    case (Inr r)
    note ok = create_labware_ok [OF c [unfolded Inr]]
    show ?thesis
    proof (cases "successful r = k")
      case False
      then show ?thesis using Cons.prems c Inr ok by auto
    next
      case True
      obtain y ev' where g: "grouper env kw k gs = (y, ev')"
        by (cases "grouper env kw k gs")
      show ?thesis
      proof (cases y)
        case (Inl e)
        then show ?thesis using Cons.prems c \<open>x = Inr r\<close> True g by simp
      next
        case (Inr b)
        obtain rs' cv' gs'' where b: "b = (rs', cv', gs'')" by (cases b)
        have eq: "rs = r # rs'" "cv = cv'" "gs' = gs''" "evs = ev @ ev'"
          using Cons.prems c \<open>x = Inr r\<close> True g Inr b by simp_all
        from Cons.IH [OF g [unfolded Inr b]] show ?thesis
          unfolding eq using ok by (auto simp: submitted_append)
      qed
    qed
  qed
qed

lemma report_group_calls:
  "lookups (snd (snd (report_group env k rs wh))) = []"
  "submitted (snd (snd (report_group env k rs wh))) = []"
  "filter is_container_call (snd (snd (report_group env k rs wh))) = []"
  by (auto simp: report_group_def update_wrangled_labware_def Let_def lookups_def submitted_def
      split: option.splits)

lemma report_group_raises:
  "report_group env k rs wh = (Inl e, wh', evs) \<Longrightarrow> wh' = wh \<and> evs = []"
  by (auto simp: report_group_def update_wrangled_labware_def Let_def
      split: option.splits if_splits)

lemma report_group_marked:
  "report_group env k rs wh = (Inr (), wh', evs) \<Longrightarrow>
   marked evs = (if k then [map barcode rs] else [])"
  by (auto simp: report_group_def update_wrangled_labware_def Let_def marked_def comp_def
      split: option.splits if_splits)

subsection \<open>What the loop calls, whatever happens\<close>

lemma for_groups_no_lookups: "lookups (snd (snd (for_groups env kw cv gs wh))) = []"
proof (induction env kw cv gs wh rule: for_groups_cases)
  case (Done env kw wh)
  then show ?case by (simp add: for_groups_done lookups_def)
next
  case (First env kw g gs wh r evs)
  then show ?case
    using create_labware_calls(3) [of env kw g]
    by (simp add: for_groups_first lookups_append)
next
  case (FirstRaises env kw g gs wh e evs)
  then show ?case
    using create_labware_calls(3) [of env kw g]
    by (simp add: for_groups_first_raises)
next
  case (Group env kw r gs wh rs cv gs' evs wh' evs')
  then show ?case
    using grouper_no_lookups [of env kw "successful r" gs]
      report_group_calls(1) [of env "successful r" "r # rs" wh]
    by (simp add: for_groups_group lookups_append)
next
  case (GrouperRaises env kw r gs wh e evs)
  then show ?case
    using grouper_no_lookups [of env kw "successful r" gs]
    by (simp add: for_groups_grouper_raises)
next
  case (ReportRaises env kw r gs wh rs cv gs' evs e wh' evs')
  then show ?case
    using grouper_no_lookups [of env kw "successful r" gs]
      report_group_calls(1) [of env "successful r" "r # rs" wh]
    by (simp add: for_groups_report_raises lookups_append)
qed

lemma for_groups_submitted:
  "set (submitted (snd (snd (for_groups env kw cv gs wh)))) \<subseteq> fst ` set gs"
proof (induction env kw cv gs wh rule: for_groups_cases)
  case (Done env kw wh)
  then show ?case by (simp add: for_groups_done submitted_def)
next
  case (First env kw g gs wh r evs)
  then show ?case
    using create_labware_calls(5) [of env kw g]
    by (auto simp: for_groups_first submitted_append)
next
  case (FirstRaises env kw g gs wh e evs)
  then show ?case
    using create_labware_calls(5) [of env kw g]
    by (auto simp: for_groups_first_raises)
next
  case (Group env kw r gs wh rs cv gs' evs wh' evs')
  have "set gs' \<subseteq> set gs" using grouper_result [OF Group(1)] by blast
  then have "fst ` set gs' \<subseteq> fst ` set gs" by blast
  then show ?case
    using Group grouper_submitted [of env kw "successful r" gs]
      report_group_calls(2) [of env "successful r" "r # rs" wh]
    by (simp add: for_groups_group submitted_append)
next
  case (GrouperRaises env kw r gs wh e evs)
  then show ?case
    using grouper_submitted [of env kw "successful r" gs]
    by (simp add: for_groups_grouper_raises)
next
  case (ReportRaises env kw r gs wh rs cv gs' evs e wh' evs')
  then show ?case
    using grouper_submitted [of env kw "successful r" gs]
      report_group_calls(2) [of env "successful r" "r # rs" wh]
    by (simp add: for_groups_report_raises submitted_append)
qed

lemma marks_follow_submits_append:
  "marks_follow_submits seen (a @ b) =
     (marks_follow_submits seen a \<and> marks_follow_submits (rev (submitted a) @ seen) b)"
  by (induction seen a rule: marks_follow_submits.induct) (auto simp: submitted_def)

lemma marks_follow_submits_no_marks: "marked a = [] \<Longrightarrow> marks_follow_submits seen a"
  by (induction seen a rule: marks_follow_submits.induct) (auto simp: marked_def)

lemma report_group_follows:
  "set (map barcode rs) \<subseteq> set seen \<Longrightarrow>
   marks_follow_submits seen (snd (snd (report_group env k rs wh)))"
  by (auto simp: report_group_def update_wrangled_labware_def Let_def marks_follow_submits_no_marks
      marked_def comp_def split: option.splits)

lemma for_groups_marks_follow:
  "(\<forall>r. cv = Some r \<longrightarrow> barcode r \<in> set seen) \<Longrightarrow>
   marks_follow_submits seen (snd (snd (for_groups env kw cv gs wh)))"
proof (induction env kw cv gs wh arbitrary: seen rule: for_groups_cases)
  case (Done env kw wh)
  then show ?case by (simp add: for_groups_done)
next
  case (First env kw g gs wh r evs)
  have m: "marks_follow_submits seen evs"
    using create_labware_calls(4) [of env kw g] First(1)
    by (simp add: marks_follow_submits_no_marks)
  have "barcode r \<in> set (rev (submitted evs) @ seen)"
    using create_labware_ok [OF First(1)] by simp
  then have "marks_follow_submits (rev (submitted evs) @ seen)
               (snd (snd (for_groups env kw (Some r) gs wh)))"
    using First(2) by blast
  then show ?case
    using m First(1) by (simp add: for_groups_first marks_follow_submits_append)
next
  case (FirstRaises env kw g gs wh e evs)
  then show ?case
    using create_labware_calls(4) [of env kw g]
    by (simp add: for_groups_first_raises marks_follow_submits_no_marks)
next
  case (Group env kw r gs wh rs cv gs' evs wh' evs')
  note gr = grouper_result [OF Group(1)]
  have m1: "marks_follow_submits seen evs"
    using grouper_no_marks [of env kw "successful r" gs] Group(1)
    by (simp add: marks_follow_submits_no_marks)
  have "set (map barcode (r # rs)) \<subseteq> set (rev (submitted evs) @ seen)"
    using gr Group(4) by auto
  from report_group_follows [OF this, of env "successful r" wh]
  have m2: "marks_follow_submits (rev (submitted evs) @ seen) evs'"
    using Group(2) by simp
  have "\<forall>r'. cv = Some r' \<longrightarrow>
          barcode r' \<in> set (rev (submitted evs') @ rev (submitted evs) @ seen)"
    using gr by auto
  then have m3: "marks_follow_submits (rev (submitted evs') @ rev (submitted evs) @ seen)
                   (snd (snd (for_groups env kw cv gs' wh')))"
    using Group(3) by blast
  show ?case
    using m1 m2 m3 Group(1,2)
    by (simp add: for_groups_group marks_follow_submits_append)
next
  case (GrouperRaises env kw r gs wh e evs)
  then show ?case
    using grouper_no_marks [of env kw "successful r" gs]
    by (simp add: for_groups_grouper_raises marks_follow_submits_no_marks)
next
  case (ReportRaises env kw r gs wh rs cv gs' evs e wh' evs')
  then show ?case
    using grouper_no_marks [of env kw "successful r" gs] report_group_raises [OF ReportRaises(2)]
    by (simp add: for_groups_report_raises marks_follow_submits_no_marks)
qed

subsection \<open>The loop when no collaborator raises\<close>

lemma grouper_container_calls:
  "filter is_container_call (snd (grouper env kw k gs)) = snd (grouper env kw k gs)"
proof (induction gs)
  case Nil
  then show ?case by simp
next
  case (Cons g gs)
  then show ?case using create_labware_calls(1) [of env kw g]
    by (auto split: prod.splits sum.splits)
qed

lemma grouper_ok:
  assumes "map (\<lambda>g. fst (create_labware env kw g)) gs = map Inr rs"
  shows "\<exists>cv gs' rs' evs.
           grouper env kw k gs = (Inr (takeWhile (\<lambda>r. successful r = k) rs, cv, gs'), evs) \<and>
           map (\<lambda>g. fst (create_labware env kw g)) gs' = map Inr rs' \<and>
           (case cv of None \<Rightarrow> [] | Some r \<Rightarrow> [r]) @ rs' = dropWhile (\<lambda>r. successful r = k) rs \<and>
           evs @ concat (map (\<lambda>g. snd (create_labware env kw g)) gs') =
             concat (map (\<lambda>g. snd (create_labware env kw g)) gs)"
  using assms
proof (induction gs arbitrary: rs)
  case Nil
  then show ?case by simp
next
  case (Cons g gs)
  from Cons.prems obtain r rs0 where rs: "rs = r # rs0"
    and c: "fst (create_labware env kw g) = Inr r"
    and rest: "map (\<lambda>g. fst (create_labware env kw g)) gs = map Inr rs0"
    by (cases rs) auto
  obtain ev where c': "create_labware env kw g = (Inr r, ev)"
    using c by (cases "create_labware env kw g") simp
  show ?case
  proof (cases "successful r = k")
    case False
    have "grouper env kw k (g # gs) = (Inr ([], Some r, gs), ev)"
      using c' False by simp
    then show ?thesis using rs rest False c' by simp
  next
    case True
    from Cons.IH [OF rest] obtain cv gs' rs' evs where
      g: "grouper env kw k gs = (Inr (takeWhile (\<lambda>r. successful r = k) rs0, cv, gs'), evs)"
      and a: "map (\<lambda>g. fst (create_labware env kw g)) gs' = map Inr rs'"
      and b: "(case cv of None \<Rightarrow> [] | Some r \<Rightarrow> [r]) @ rs' = dropWhile (\<lambda>r. successful r = k) rs0"
      and d: "evs @ concat (map (\<lambda>g. snd (create_labware env kw g)) gs') =
             concat (map (\<lambda>g. snd (create_labware env kw g)) gs)"
      by blast
    have "grouper env kw k (g # gs) =
            (Inr (r # takeWhile (\<lambda>r. successful r = k) rs0, cv, gs'), ev @ evs)"
      using c' True g by simp
    then show ?thesis using rs True a b d c' by simp
  qed
qed


lemma mark_row_fun:
  "mark_row t bs = (\<lambda>r. if container_barcode r \<in> set bs then r\<lparr>wrangled := Some t\<rparr> else r)"
  by (rule ext) (simp add: mark_row_def)

lemma report_group_ok:
  assumes "tables wh (MLWH_DB_TABLE env) = Some rows" and "rs \<noteq> []"
  shows "fst (report_group env k rs wh) = Inr ()"
    and "fst (snd (report_group env k rs wh)) =
           (if k then wh\<lparr>tables := (tables wh)(MLWH_DB_TABLE env \<mapsto>
                          map (mark_row (now wh) (map barcode rs)) rows)\<rparr>
            else wh)"
    and "tables wh0 (MLWH_DB_TABLE env) \<noteq> None \<Longrightarrow>
         snd (snd (report_group env k rs wh)) = snd (snd (report_group env k rs wh0))"
    and "filter is_report (snd (snd (report_group env k rs wh))) =
           snd (snd (report_group env k rs wh))"
  using assms
  by (auto simp: report_group_def update_wrangled_labware_def Let_def mark_row_fun
      split: option.splits)

lemma for_groups_ok:
  assumes "map (\<lambda>g. fst (create_labware env kw g)) gs = map Inr rs"
    and "tables wh (MLWH_DB_TABLE env) \<noteq> None"
    and "tables wh0 (MLWH_DB_TABLE env) \<noteq> None"
  shows "fst (for_groups env kw cv gs wh) = Inr () \<and>
         marked (snd (snd (for_groups env kw cv gs wh))) =
           map (\<lambda>kg. map barcode (snd kg))
             (filter fst (groupby successful ((case cv of None \<Rightarrow> [] | Some r \<Rightarrow> [r]) @ rs))) \<and>
         filter is_container_call (snd (snd (for_groups env kw cv gs wh))) =
           concat (map (\<lambda>g. snd (create_labware env kw g)) gs) \<and>
         filter is_report (snd (snd (for_groups env kw cv gs wh))) =
           concat (map (\<lambda>kg. snd (snd (report_group env (fst kg) (snd kg) wh0)))
             (groupby successful ((case cv of None \<Rightarrow> [] | Some r \<Rightarrow> [r]) @ rs)))"
  using assms
proof (induction env kw cv gs wh arbitrary: rs rule: for_groups_cases)
  case (Done env kw wh)
  then show ?case by (simp add: for_groups_done marked_def)
next
  case (First env kw g gs wh r evs)
  from First(1,3) obtain rs0 where rs: "rs = r # rs0"
    and rest: "map (\<lambda>g. fst (create_labware env kw g)) gs = map Inr rs0"
    by (cases rs) auto
  note ih = First(2) [OF rest First(4) First(5)]
  have e: "marked evs = []" "filter is_container_call evs = evs" "filter is_report evs = []"
    using create_labware_calls [of env kw g] First(1) by simp_all
  show ?case
    using ih e First(1) unfolding rs
    by (simp add: for_groups_first marked_append)
next
  case (FirstRaises env kw g gs wh e evs)
  then show ?case by (cases rs) auto
next
  case (Group env kw r gs wh rs1 cv gs' evs wh' evs')
  let ?P = "\<lambda>x. successful x = successful r"
  from grouper_ok [OF Group(4), of "successful r"] Group(1)
  obtain rs' where
    rs1: "rs1 = takeWhile ?P rs"
    and a: "map (\<lambda>g. fst (create_labware env kw g)) gs' = map Inr rs'"
    and b: "(case cv of None \<Rightarrow> [] | Some r \<Rightarrow> [r]) @ rs' = dropWhile ?P rs"
    and d: "evs @ concat (map (\<lambda>g. snd (create_labware env kw g)) gs') =
             concat (map (\<lambda>g. snd (create_labware env kw g)) gs)"
    by auto
  obtain rows where t: "tables wh (MLWH_DB_TABLE env) = Some rows"
    using Group(5) by blast
  have wh': "tables wh' (MLWH_DB_TABLE env) \<noteq> None"
    using report_group_ok(2) [OF t, of "r # rs1" "successful r"] Group(2) t by auto
  note ih = Group(3) [OF a wh' Group(6)]
  have e: "marked evs = []" "filter is_container_call evs = evs" "filter is_report evs = []"
    using grouper_no_marks [of env kw "successful r" gs]
      grouper_container_calls [of env kw "successful r" gs]
      grouper_no_report [of env kw "successful r" gs] Group(1) by simp_all
  have ne: "r # rs1 \<noteq> []" by simp
  have "snd (snd (report_group env (successful r) (r # rs1) wh)) =
          snd (snd (report_group env (successful r) (r # rs1) wh0))"
    using t ne Group(6) by (rule report_group_ok(3))
  moreover have "filter is_report (snd (snd (report_group env (successful r) (r # rs1) wh))) =
          snd (snd (report_group env (successful r) (r # rs1) wh))"
    using t ne by (rule report_group_ok(4))
  ultimately have e': "marked evs' = (if successful r then [map barcode (r # rs1)] else [])"
    "filter is_container_call evs' = []"
    "filter is_report evs' = snd (snd (report_group env (successful r) (r # rs1) wh0))"
    using report_group_marked [OF Group(2)]
      report_group_calls(3) [of env "successful r" "r # rs1" wh] Group(2)
    by simp_all
  have gb: "groupby successful (r # rs) =
              (successful r, r # rs1) # groupby successful (dropWhile ?P rs)"
    unfolding rs1 by simp
  have "for_groups env kw (Some r) gs wh =
     (fst (for_groups env kw cv gs' wh'),
      fst (snd (for_groups env kw cv gs' wh')),
      evs @ evs' @ snd (snd (for_groups env kw cv gs' wh')))"
    using for_groups_group [OF Group(1,2)] .
  then show ?case
    using ih e e' d unfolding b
    by (simp add: gb marked_append del: groupby.simps)
next
  case (GrouperRaises env kw r gs wh e evs)
  then show ?case using grouper_ok [OF GrouperRaises(2), of "successful r"] by auto
next
  case (ReportRaises env kw r gs wh rs1 cv gs' evs e wh' evs')
  obtain rows where t: "tables wh (MLWH_DB_TABLE env) = Some rows"
    using ReportRaises(4) by blast
  show ?case
    using report_group_ok(1) [OF t, of "r # rs1" "successful r"] ReportRaises(2) by simp
qed

subsection \<open>The warehouse after the loop\<close>

lemma mark_row_twice: "mark_row t bs' (mark_row t bs r) = mark_row t (bs @ bs') r"
  by (simp add: mark_row_def)

lemma mark_row_none: "map (mark_row t []) rows = rows"
  by (simp add: mark_row_fun)

lemma warehouse_same:
  assumes "tables wh table = Some rows" and "marked evs = []"
  shows "wh\<lparr>tables := (tables wh)(table \<mapsto> map (mark_row t (concat (marked evs))) rows)\<rparr> = wh"
proof -
  have "(tables wh)(table \<mapsto> rows) = tables wh"
    using assms(1) by (rule map_upd_triv)
  then show ?thesis by (simp add: assms(2) mark_row_none)
qed

lemma warehouse_same_result:
  assumes "tables wh table = Some rows" and "L = (res, wh, evs)" and "marked evs = []"
  shows "fst (snd L) =
           wh\<lparr>tables := (tables wh)(table \<mapsto>
                 map (mark_row t (concat (marked (snd (snd L))))) rows)\<rparr>"
  unfolding assms(2) fst_conv snd_conv warehouse_same [OF assms(1,3)] by (rule refl)

lemma for_groups_warehouse:
  "tables wh (MLWH_DB_TABLE env) = Some rows \<Longrightarrow>
   fst (snd (for_groups env kw cv gs wh)) =
     wh\<lparr>tables := (tables wh)(MLWH_DB_TABLE env \<mapsto>
           map (mark_row (now wh) (concat (marked (snd (snd (for_groups env kw cv gs wh)))))) rows)\<rparr>"
proof (induction env kw cv gs wh arbitrary: rows rule: for_groups_cases)
  case (Done env kw wh)
  have "marked [] = []" by (simp add: marked_def)
  with Done for_groups_done show ?case by (rule warehouse_same_result)
next
  case (First env kw g gs wh r evs)
  have "marked evs = []" using create_labware_calls(4) [of env kw g] First(1) by simp
  then show ?case
    using First(2) [OF First(3)] First(1)
    by (simp add: for_groups_first marked_append)
next
  case (FirstRaises env kw g gs wh e evs)
  have "marked evs = []" using create_labware_calls(4) [of env kw g] FirstRaises(1) by simp
  with FirstRaises(2) for_groups_first_raises [OF FirstRaises(1)] show ?case
    by (rule warehouse_same_result)
next
  case (Group env kw r gs wh rs cv gs' evs wh' evs')
  let ?T = "MLWH_DB_TABLE env"
  let ?bs = "if successful r then map barcode (r # rs) else []"
  let ?rest = "snd (snd (for_groups env kw cv gs' wh'))"
  have ne: "r # rs \<noteq> []" by simp
  have m: "marked evs = []"
    using grouper_no_marks [of env kw "successful r" gs] Group(1) by simp
  have m': "concat (marked evs') = ?bs"
    using report_group_marked [OF Group(2)] by simp
  have "(tables wh)(?T \<mapsto> rows) = tables wh"
    using Group(4) by (rule map_upd_triv)
  then have w: "wh' = wh\<lparr>tables := (tables wh)(?T \<mapsto> map (mark_row (now wh) ?bs) rows)\<rparr>"
    using report_group_ok(2) [OF Group(4) ne, of "successful r"] Group(2)
    by (simp add: mark_row_none)
  then have t': "tables wh' ?T = Some (map (mark_row (now wh) ?bs) rows)" and n: "now wh' = now wh"
    by simp_all
  have s: "for_groups env kw (Some r) gs wh =
     (fst (for_groups env kw cv gs' wh'),
      fst (snd (for_groups env kw cv gs' wh')),
      evs @ evs' @ snd (snd (for_groups env kw cv gs' wh')))"
    using Group(1,2) by (rule for_groups_group)
  have mk: "concat (marked (evs @ evs' @ ?rest)) = ?bs @ concat (marked ?rest)"
    using m m' by (simp add: marked_append)
  have "fst (snd (for_groups env kw cv gs' wh')) =
          wh'\<lparr>tables := (tables wh')(?T \<mapsto>
             map (mark_row (now wh') (concat (marked ?rest))) (map (mark_row (now wh) ?bs) rows))\<rparr>"
    using Group(3) [OF t'] .
  also have "\<dots> = wh\<lparr>tables := (tables wh)(?T \<mapsto>
             map (mark_row (now wh) (?bs @ concat (marked ?rest))) rows)\<rparr>"
    unfolding n by (subst w, subst w) (simp add: mark_row_twice comp_def)
  finally have fin: "fst (snd (for_groups env kw cv gs' wh')) =
      wh\<lparr>tables := (tables wh)(?T \<mapsto>
             map (mark_row (now wh) (?bs @ concat (marked ?rest))) rows)\<rparr>" .
  show ?case unfolding s fst_conv snd_conv mk by (rule fin)
next
  case (GrouperRaises env kw r gs wh e evs)
  have "marked evs = []"
    using grouper_no_marks [of env kw "successful r" gs] GrouperRaises(1) by simp
  with GrouperRaises(2) for_groups_grouper_raises [OF GrouperRaises(1)] show ?case
    by (rule warehouse_same_result)
next
  case (ReportRaises env kw r gs wh rs cv gs' evs e wh' evs')
  have e: "wh' = wh" "evs' = []"
    using report_group_raises [OF ReportRaises(2)] by simp_all
  have "marked (evs @ evs') = []"
    using grouper_no_marks [of env kw "successful r" gs] ReportRaises(1) e by simp
  with ReportRaises(3) for_groups_report_raises [OF ReportRaises(1,2), unfolded e(1)] show ?case
    by (rule warehouse_same_result)
qed

subsection \<open>\<open>run\<close> up to its loop\<close>

lemma fetch_ok:
  assumes "fst (get_unwrangled_labware table dest wh) = Inr rows"
  shows "get_unwrangled_labware table dest wh = (Inr rows, [ExecuteSelect table dest])"
    and "\<exists>tbl. tables wh table = Some tbl \<and>
               rows = sort_key container_barcode
                        (filter (\<lambda>r. destination r = dest \<and> wrangled r = None) tbl)"
    and "sorted (map container_barcode rows)"
  using assms
  by (auto simp: get_unwrangled_labware_def split: option.splits)

lemma study_uuids_from_no_submit: "submitted (snd (study_uuids_from env m ss)) = []"
proof (induction ss arbitrary: m)
  case Nil
  then show ?case by (simp add: submitted_def)
next
  case (Cons a ss)
  show ?case
  proof (cases "get_entity_uuid env (STUDY_ENTITY env) a")
    case (Inl e)
    then show ?thesis by (simp add: submitted_def)
  next
    case (Inr u)
    obtain x evs where r: "study_uuids_from env (m(a \<mapsto> u)) ss = (x, evs)"
      by (cases "study_uuids_from env (m(a \<mapsto> u)) ss")
    have "submitted evs = []" using Cons [of "m(a \<mapsto> u)"] unfolding r by simp
    moreover have "submitted (EntityLookup (STUDY_ENTITY env) a # evs) = submitted evs"
      by (simp add: submitted_def)
    ultimately show ?thesis using Inr r by simp
  qed
qed

lemma study_uuids_from_no_marks: "marked (snd (study_uuids_from env m ss)) = []"
proof (induction ss arbitrary: m)
  case Nil
  then show ?case by (simp add: marked_def)
next
  case (Cons a ss)
  show ?case
  proof (cases "get_entity_uuid env (STUDY_ENTITY env) a")
    case (Inl e)
    then show ?thesis by (simp add: marked_def)
  next
    case (Inr u)
    obtain x evs where r: "study_uuids_from env (m(a \<mapsto> u)) ss = (x, evs)"
      by (cases "study_uuids_from env (m(a \<mapsto> u)) ss")
    have "marked evs = []" using Cons [of "m(a \<mapsto> u)"] unfolding r by simp
    moreover have "marked (EntityLookup (STUDY_ENTITY env) a # evs) = marked evs"
      by (simp add: marked_def)
    ultimately show ?thesis using Inr r by simp
  qed
qed

lemma get_study_uuids_ok:
  assumes "fst (get_study_uuids env ss) = Inr uuids"
  shows "get_study_uuids env ss = (Inr uuids, map (EntityLookup (STUDY_ENTITY env)) ss)"
proof -
  obtain evs where e: "study_uuids_from env Map.empty ss = (Inr uuids, evs)"
    using assms unfolding get_study_uuids_def
    by (cases "study_uuids_from env Map.empty ss") simp
  from study_uuids_from_events [OF e] e show ?thesis
    by (simp add: get_study_uuids_def)
qed

lemma run_loop:
  assumes "fst (get_unwrangled_labware (MLWH_DB_TABLE env) (CGAP_EXTRACTION_DESTINATION env) wh)
           = Inr rows"
    and "rows \<noteq> []"
    and "fst (get_study_uuids env (remdups (map study rows))) = Inr uuids"
    and "fst (get_plate_purpose_uuid env) = Inr pp"
    and "fst (get_tube_rack_purpose_uuid env) = Inr rp"
  shows "run env wh =
    (fst (for_groups env
            \<lparr>study_uuids = uuids, plate_purpose_uuids = [PLATE \<mapsto> pp, TUBE_RACK \<mapsto> rp]\<rparr>
            None (groupby container_barcode rows) wh),
     fst (snd (for_groups env
            \<lparr>study_uuids = uuids, plate_purpose_uuids = [PLATE \<mapsto> pp, TUBE_RACK \<mapsto> rp]\<rparr>
            None (groupby container_barcode rows) wh)),
     LogInfo ''Starting cgap extraction job''
     # ExecuteSelect (MLWH_DB_TABLE env) (CGAP_EXTRACTION_DESTINATION env)
     # map (EntityLookup (STUDY_ENTITY env)) (remdups (map study rows))
     @ [EntityLookup (PLATE_PURPOSE_ENTITY env) (LYSATE_PLATE_PURPOSE env),
        EntityLookup (PLATE_PURPOSE_ENTITY env) (LYSATE_TR_PURPOSE env)]
     @ snd (snd (for_groups env
            \<lparr>study_uuids = uuids, plate_purpose_uuids = [PLATE \<mapsto> pp, TUBE_RACK \<mapsto> rp]\<rparr>
            None (groupby container_barcode rows) wh)))"
proof -
  have a: "get_plate_purpose_uuid env =
         (Inr pp, [EntityLookup (PLATE_PURPOSE_ENTITY env) (LYSATE_PLATE_PURPOSE env)])"
    using assms(4) by (simp add: get_plate_purpose_uuid_def)
  have b: "get_tube_rack_purpose_uuid env =
         (Inr rp, [EntityLookup (PLATE_PURPOSE_ENTITY env) (LYSATE_TR_PURPOSE env)])"
    using assms(5) by (simp add: get_tube_rack_purpose_uuid_def)
  show ?thesis
    using assms(2)
    by (simp add: run_def fetch_ok(1) [OF assms(1)] get_study_uuids_ok [OF assms(3)] a b
        split: prod.splits)
qed

text \<open>Either \<open>run\<close> reaches its loop, or it ends without a submission or a marker update.\<close>

lemma run_cases [case_names NoLoop Loop]:
  obtains
    (NoLoop) "fst (snd (run env wh)) = wh" "submitted (snd (snd (run env wh))) = []"
      "marked (snd (snd (run env wh))) = []"
  | (Loop) rows uuids pp rp where
      "fst (get_unwrangled_labware (MLWH_DB_TABLE env) (CGAP_EXTRACTION_DESTINATION env) wh)
       = Inr rows"
      "rows \<noteq> []"
      "fst (get_study_uuids env (remdups (map study rows))) = Inr uuids"
      "fst (get_plate_purpose_uuid env) = Inr pp"
      "fst (get_tube_rack_purpose_uuid env) = Inr rp"
proof -
  let ?F = "get_unwrangled_labware (MLWH_DB_TABLE env) (CGAP_EXTRACTION_DESTINATION env) wh"
  obtain x ev0 where f: "?F = (x, ev0)" by (cases ?F)
  have ev0: "submitted ev0 = []" "marked ev0 = []"
    using f by (auto simp: get_unwrangled_labware_def submitted_def marked_def split: option.splits)
  show thesis
  proof (cases x)
    case (Inl e)
    then show ?thesis using f ev0 NoLoop by (simp add: run_def submitted_def marked_def)
  next
    case (Inr rows)
    show ?thesis
    proof (cases "rows = []")
      case True
      then show ?thesis using f Inr ev0 NoLoop by (simp add: run_def submitted_def marked_def)
    next
      case False
      let ?S = "get_study_uuids env (remdups (map study rows))"
      obtain y ev1 where s: "?S = (y, ev1)" by (cases ?S)
      have ev1: "submitted ev1 = []" "marked ev1 = []"
        using s study_uuids_from_no_submit [of env Map.empty "remdups (map study rows)"]
          study_uuids_from_no_marks [of env Map.empty "remdups (map study rows)"]
        by (simp_all add: get_study_uuids_def)
      show ?thesis
      proof (cases y)
        case (Inl e)
        then show ?thesis using f \<open>x = Inr rows\<close> False s ev0 ev1 NoLoop
          by (simp add: run_def submitted_def marked_def)
      next
        case (Inr uuids)
        note u = this
        show ?thesis
        proof (cases "fst (get_plate_purpose_uuid env)")
          case (Inl e)
          then show ?thesis using f \<open>x = Inr rows\<close> False s u ev0 ev1 NoLoop
            by (simp add: run_def submitted_def marked_def get_plate_purpose_uuid_def)
        next
          case (Inr pp)
          note p = this
          show ?thesis
          proof (cases "fst (get_tube_rack_purpose_uuid env)")
            case (Inl e)
            then show ?thesis using f \<open>x = Inr rows\<close> False s u p ev0 ev1 NoLoop
              by (simp add: run_def submitted_def marked_def get_plate_purpose_uuid_def
                  get_tube_rack_purpose_uuid_def)
          next
            case (Inr rp)
            then show ?thesis using f \<open>x = Inr rows\<close> False s u p Loop by simp
          qed
        qed
      qed
    qed
  qed
qed

subsection \<open>The calls of \<open>run\<close> before its loop\<close>

lemma entity_lookups:
  "marked (map (EntityLookup s) xs) = []"
  "submitted (map (EntityLookup s) xs) = []"
  "lookups (map (EntityLookup s) xs) = map (Pair s) xs"
  "filter is_container_call (map (EntityLookup s) xs) = []"
  "filter is_report (map (EntityLookup s) xs) = []"
  "filter is_submit (map (EntityLookup s) xs) = []"
  by (induction xs) (simp_all add: marked_def submitted_def lookups_def)

lemma Cons_calls:
  "marked (e # evs) = marked [e] @ marked evs"
  "submitted (e # evs) = submitted [e] @ submitted evs"
  "lookups (e # evs) = lookups [e] @ lookups evs"
  by (simp_all add: marked_def submitted_def lookups_def)

lemma run_loop_calls:
  assumes "fst (get_unwrangled_labware (MLWH_DB_TABLE env) (CGAP_EXTRACTION_DESTINATION env) wh)
           = Inr rows"
    and "rows \<noteq> []"
    and "fst (get_study_uuids env (remdups (map study rows))) = Inr uuids"
    and "fst (get_plate_purpose_uuid env) = Inr pp"
    and "fst (get_tube_rack_purpose_uuid env) = Inr rp"
    and "L = for_groups env
            \<lparr>study_uuids = uuids, plate_purpose_uuids = [PLATE \<mapsto> pp, TUBE_RACK \<mapsto> rp]\<rparr>
            None (groupby container_barcode rows) wh"
  shows "fst (run env wh) = fst L"
    and "fst (snd (run env wh)) = fst (snd L)"
    and "marked (snd (snd (run env wh))) = marked (snd (snd L))"
    and "submitted (snd (snd (run env wh))) = submitted (snd (snd L))"
    and "filter is_container_call (snd (snd (run env wh))) = filter is_container_call (snd (snd L))"
    and "filter is_report (snd (snd (run env wh))) =
           LogInfo ''Starting cgap extraction job'' # filter is_report (snd (snd L))"
    and "lookups (snd (snd (run env wh))) =
           map (Pair (STUDY_ENTITY env)) (remdups (map study rows))
           @ [(PLATE_PURPOSE_ENTITY env, LYSATE_PLATE_PURPOSE env),
              (PLATE_PURPOSE_ENTITY env, LYSATE_TR_PURPOSE env)]
           @ lookups (snd (snd L))"
    and "\<exists>pre. snd (snd (run env wh)) = pre @ snd (snd L) \<and> submitted pre = [] \<and> marked pre = []
               \<and> filter is_submit pre = []"
proof -
  note r = run_loop [OF assms(1-5), folded assms(6)]
  show "fst (run env wh) = fst L" "fst (snd (run env wh)) = fst (snd L)"
    by (simp_all add: r)
  show "marked (snd (snd (run env wh))) = marked (snd (snd L))"
    unfolding r snd_conv
    by (simp add: Cons_calls(1) [of _ "_ # _"] Cons_calls(1) [of _ "_ @ _"] marked_append
        entity_lookups) (simp add: marked_def)
  show "submitted (snd (snd (run env wh))) = submitted (snd (snd L))"
    unfolding r snd_conv
    by (simp add: Cons_calls(2) [of _ "_ # _"] Cons_calls(2) [of _ "_ @ _"] submitted_append
        entity_lookups) (simp add: submitted_def)
  show "filter is_container_call (snd (snd (run env wh))) = filter is_container_call (snd (snd L))"
    unfolding r snd_conv by (simp add: entity_lookups)
  show "filter is_report (snd (snd (run env wh))) =
           LogInfo ''Starting cgap extraction job'' # filter is_report (snd (snd L))"
    unfolding r snd_conv by (simp add: entity_lookups)
  show "lookups (snd (snd (run env wh))) =
           map (Pair (STUDY_ENTITY env)) (remdups (map study rows))
           @ [(PLATE_PURPOSE_ENTITY env, LYSATE_PLATE_PURPOSE env),
              (PLATE_PURPOSE_ENTITY env, LYSATE_TR_PURPOSE env)]
           @ lookups (snd (snd L))"
    unfolding r snd_conv
    by (simp add: Cons_calls(3) [of _ "_ # _"] Cons_calls(3) [of _ "_ @ _"] lookups_append
        entity_lookups) (simp add: lookups_def)
  let ?pre = "LogInfo ''Starting cgap extraction job''
     # ExecuteSelect (MLWH_DB_TABLE env) (CGAP_EXTRACTION_DESTINATION env)
     # map (EntityLookup (STUDY_ENTITY env)) (remdups (map study rows))
     @ [EntityLookup (PLATE_PURPOSE_ENTITY env) (LYSATE_PLATE_PURPOSE env),
        EntityLookup (PLATE_PURPOSE_ENTITY env) (LYSATE_TR_PURPOSE env)]"
  have "snd (snd (run env wh)) = ?pre @ snd (snd L)"
    unfolding r snd_conv by simp
  moreover have "submitted ?pre = []"
    by (simp add: Cons_calls(2) [of _ "_ # _"] Cons_calls(2) [of _ "_ @ _"] submitted_append
        entity_lookups) (simp add: submitted_def)
  moreover have "marked ?pre = []"
    by (simp add: Cons_calls(1) [of _ "_ # _"] Cons_calls(1) [of _ "_ @ _"] marked_append
        entity_lookups) (simp add: marked_def)
  moreover have "filter is_submit ?pre = []"
    by (simp add: entity_lookups)
  ultimately show "\<exists>pre. snd (snd (run env wh)) = pre @ snd (snd L) \<and> submitted pre = []
      \<and> marked pre = [] \<and> filter is_submit pre = []"
    by blast
qed

subsection \<open>The sample run\<close>

lemma abc_fetch:
  "fst (get_unwrangled_labware (MLWH_DB_TABLE sample_env) (CGAP_EXTRACTION_DESTINATION sample_env)
         (sample_wh abc_rows)) = Inr abc_fetched"
  by code_simp

lemma abc_table: "tables (sample_wh abc_rows) (MLWH_DB_TABLE sample_env) = Some abc_rows"
  by (simp add: sample_wh_def sample_env_def)

lemma abc_fetched_not_empty: "abc_fetched \<noteq> []"
  by (simp add: abc_fetched_def)

lemma abc_study_uuids:
  "fst (get_study_uuids sample_env (remdups (map study abc_fetched))) =
     Inr [''s2'' \<mapsto> ''uuid of s2'', ''s1'' \<mapsto> ''uuid of s1'']"
  by (simp add: get_study_uuids_def abc_fetched_def sample_row_def sample_env_def)

lemma abc_purposes:
  "fst (get_plate_purpose_uuid sample_env) = Inr ''uuid of Plate Lysate''"
  "fst (get_tube_rack_purpose_uuid sample_env) = Inr ''uuid of TR Lysate''"
  by (simp_all add: get_plate_purpose_uuid_def get_tube_rack_purpose_uuid_def sample_env_def)

lemma abc_groups:
  "groupby container_barcode abc_fetched =
     [(''A'', [sample_row ''A'' ''s1'', sample_row ''A'' ''s1'']),
      (''B'', [sample_row ''B'' ''s2'']),
      (''C'', [sample_row ''C'' ''s1''])]"
  by (simp add: abc_fetched_def sample_row_def)

lemma abc_outcomes:
  "map (\<lambda>g. fst (create_labware sample_env
                  \<lparr>study_uuids = [''s2'' \<mapsto> ''uuid of s2'', ''s1'' \<mapsto> ''uuid of s1''],
                   plate_purpose_uuids = [PLATE \<mapsto> ''uuid of Plate Lysate'',
                                          TUBE_RACK \<mapsto> ''uuid of TR Lysate'']\<rparr> g))
     (groupby container_barcode abc_fetched) = map Inr abc_responses"
  unfolding abc_groups
  by (simp add: create_labware_def sample_env_def sample_row_def abc_responses_def
      HTTP_CREATED_def)

lemma abc_outcome:
  "fst (create_labware sample_env
          \<lparr>study_uuids = [''s2'' \<mapsto> ''uuid of s2'', ''s1'' \<mapsto> ''uuid of s1''],
           plate_purpose_uuids = [PLATE \<mapsto> ''uuid of Plate Lysate'',
                                  TUBE_RACK \<mapsto> ''uuid of TR Lysate'']\<rparr>
          (''A'', [sample_row ''A'' ''s1'', sample_row ''A'' ''s1''])) =
     Inr \<lparr>barcode = ''A'', body = ''created'', successful = True\<rparr>"
  "fst (create_labware sample_env
          \<lparr>study_uuids = [''s2'' \<mapsto> ''uuid of s2'', ''s1'' \<mapsto> ''uuid of s1''],
           plate_purpose_uuids = [PLATE \<mapsto> ''uuid of Plate Lysate'',
                                  TUBE_RACK \<mapsto> ''uuid of TR Lysate'']\<rparr>
          (''B'', [sample_row ''B'' ''s2''])) =
     Inr \<lparr>barcode = ''B'', body = ''B is taken'', successful = False\<rparr>"
  "fst (create_labware sample_env
          \<lparr>study_uuids = [''s2'' \<mapsto> ''uuid of s2'', ''s1'' \<mapsto> ''uuid of s1''],
           plate_purpose_uuids = [PLATE \<mapsto> ''uuid of Plate Lysate'',
                                  TUBE_RACK \<mapsto> ''uuid of TR Lysate'']\<rparr>
          (''C'', [sample_row ''C'' ''s1''])) =
     Inr \<lparr>barcode = ''C'', body = ''created'', successful = True\<rparr>"
  by (simp_all add: create_labware_def sample_env_def sample_row_def HTTP_CREATED_def)

subsection \<open>The empty batch\<close>

text \<open>
  C7: when the fetch of the unwrangled rows returns no row, \<open>run\<close> returns at once: it
  has logged its start and read the warehouse, and made no resolver lookup, no
  submission and no marker update; the warehouse is as it was.
\<close>

theorem empty_batch_short_circuit:
  assumes "fst (get_unwrangled_labware (MLWH_DB_TABLE env) (CGAP_EXTRACTION_DESTINATION env) wh)
           = Inr []"
  shows "run env wh =
           (Inr (), wh,
            [LogInfo ''Starting cgap extraction job'',
             ExecuteSelect (MLWH_DB_TABLE env) (CGAP_EXTRACTION_DESTINATION env)])
         \<and> lookups (snd (snd (run env wh))) = []
         \<and> submitted (snd (snd (run env wh))) = []
         \<and> marked (snd (snd (run env wh))) = []"
proof -
  have "get_unwrangled_labware (MLWH_DB_TABLE env) (CGAP_EXTRACTION_DESTINATION env) wh =
          (Inr [], [ExecuteSelect (MLWH_DB_TABLE env) (CGAP_EXTRACTION_DESTINATION env)])"
    using assms by (auto simp: get_unwrangled_labware_def split: option.splits)
  then have "run env wh =
           (Inr (), wh,
            [LogInfo ''Starting cgap extraction job'',
             ExecuteSelect (MLWH_DB_TABLE env) (CGAP_EXTRACTION_DESTINATION env)])"
    by (simp add: run_def)
  then show ?thesis
    by (simp add: lookups_def submitted_def marked_def)
qed

theorem empty_batch_short_circuit_witness:
  "fst (get_unwrangled_labware (MLWH_DB_TABLE sample_env)
          (CGAP_EXTRACTION_DESTINATION sample_env) wrangled_wh) = Inr []
   \<and> run sample_env wrangled_wh =
       (Inr (), wrangled_wh,
        [LogInfo ''Starting cgap extraction job'', ExecuteSelect ''cgap_heron'' ''CGAP''])"
proof -
  have h: "fst (get_unwrangled_labware (MLWH_DB_TABLE sample_env)
          (CGAP_EXTRACTION_DESTINATION sample_env) wrangled_wh) = Inr []"
    by (simp add: get_unwrangled_labware_def sample_env_def wrangled_wh_def sample_wh_def
        sample_row_def)
  have t: "MLWH_DB_TABLE sample_env = ''cgap_heron''"
    "CGAP_EXTRACTION_DESTINATION sample_env = ''CGAP''"
    by (simp_all add: sample_env_def)
  show ?thesis
    using h empty_batch_short_circuit [OF h] unfolding t by blast
qed

subsection \<open>The route \<open>wrangle\<close>\<close>

text \<open>
  C10 says that the route \<open>/wrangle/<tube_rack_barcode>\<close> never answers with the status
  INTERNAL\_SERVER\_ERROR. The code does at this input: when a helper raises a
  \<open>ValueError\<close> without an attribute \<open>message\<close> (the built-in class has none), the clause
  \<open>except ValueError\<close> of \<open>wrangle\<close> raises \<open>AttributeError\<close> itself, \<open>wrangle\<close> returns
  nothing, and Flask answers the request with INTERNAL\_SERVER\_ERROR. The route
  \<open>/tube_rack/<tube_rack_barcode>\<close>, for the same exception from its helper, returns the
  error body with the status NOT\_FOUND.
\<close>

theorem wrangle_value_error_is_server_error:
  assumes "wrangle_tubes renv bc = Inl e
           \<or> (\<exists>rb. wrangle_tubes renv bc = Inr rb \<and> send_request_to_sequencescape renv rb = Inl e)"
    and "is_value_error e"
    and "message e = None"
  shows "fst (wrangle renv bc) = Inl (AttributeError (class_name e) ''message'')
       \<and> snd (flask_response (fst (wrangle renv bc))) = HTTP_INTERNAL_SERVER_ERROR
       \<and> (parse_tube_rack_csv renv bc = Inl e \<longrightarrow>
            flask_response (fst (get_tubes_from_rack_barcode renv bc)) =
              (ErrorBody (as_str e), HTTP_NOT_FOUND))"
proof -
  have "fst (wrangle_except e evs) = Inl (AttributeError (class_name e) ''message'')" for evs
    using assms(2,3) by (simp add: wrangle_except_def)
  then have w: "fst (wrangle renv bc) = Inl (AttributeError (class_name e) ''message'')"
    using assms(1) by (auto simp: wrangle_def Let_def)
  have "parse_tube_rack_csv renv bc = Inl e \<longrightarrow>
            flask_response (fst (get_tubes_from_rack_barcode renv bc)) =
              (ErrorBody (as_str e), HTTP_NOT_FOUND)"
    using assms(2) by (simp add: get_tubes_from_rack_barcode_def flask_response_def)
  then show ?thesis
    unfolding w by (simp add: flask_response_def)
qed

theorem wrangle_value_error_is_server_error_witness:
  "wrangle_tubes sample_route_env ''V'' = Inl (ValueError ''no rack V'')
   \<and> fst (wrangle sample_route_env ''V'') = Inl (AttributeError ''ValueError'' ''message'')
   \<and> snd (flask_response (fst (wrangle sample_route_env ''V''))) = HTTP_INTERNAL_SERVER_ERROR
   \<and> flask_response (fst (get_tubes_from_rack_barcode sample_route_env ''V'')) =
       (ErrorBody ''no rack V'', HTTP_NOT_FOUND)"
proof -
  have h: "wrangle_tubes sample_route_env ''V'' = Inl (ValueError ''no rack V'')"
    "parse_tube_rack_csv sample_route_env ''V'' = Inl (ValueError ''no rack V'')"
    by (simp_all add: sample_route_env_def)
  have v: "is_value_error (ValueError ''no rack V'')" "message (ValueError ''no rack V'') = None"
    "class_name (ValueError ''no rack V'') = ''ValueError''"
    "as_str (ValueError ''no rack V'') = ''no rack V''"
    by (simp_all add: ValueError_def)
  show ?thesis
    using h v
      wrangle_value_error_is_server_error [of sample_route_env "''V''" "ValueError ''no rack V''"]
    by metis
qed

subsection \<open>Marker updates and submissions\<close>

text \<open>
  C3, as stated: no marker update is issued before every submission of the run has
  completed. It fails for the containers \<open>A\<close>, \<open>B\<close>, \<open>C\<close> of which Sequencescape
  creates all but \<open>B\<close>: the loop of \<open>run\<close> asks the generator for the responses one at a
  time, and the update for \<open>A\<close> is issued when the response for \<open>B\<close> has ended the group
  of \<open>A\<close>, before \<open>C\<close> is submitted.
\<close>

theorem marker_write_before_last_submission:
  "snd (snd (run sample_env (sample_wh abc_rows))) =
     [LogInfo ''Starting cgap extraction job'',
      ExecuteSelect ''cgap_heron'' ''CGAP'',
      EntityLookup ''studies'' ''s2'',
      EntityLookup ''studies'' ''s1'',
      EntityLookup ''plate_purposes'' ''Plate Lysate'',
      EntityLookup ''plate_purposes'' ''TR Lysate'',
      Classify ''A'', BuildBody PLATE ''A'', Submit PLATE ''A'' ''plate A'',
      Classify ''B'', BuildBody PLATE ''B'', Submit PLATE ''B'' ''plate B'',
      ExecuteUpdate ''cgap_heron'' [''A''],
      LogInfo ''The following labware were successfully created: A'',
      Classify ''C'', BuildBody PLATE ''C'', Submit PLATE ''C'' ''plate C'',
      LogError ''The following labware failed to be created: B'',
      LogError ''B is taken'',
      ExecuteUpdate ''cgap_heron'' [''C''],
      LogInfo ''The following labware were successfully created: C'']
   \<and> \<not> no_submit_after_mark (snd (snd (run sample_env (sample_wh abc_rows))))"
  by code_simp

text \<open>
  C3, amended: in every run, whatever its collaborators do, a marker update names only
  containers that have been submitted before it. (It may come before the submissions
  of later containers.)
\<close>

theorem marker_write_follows_its_submissions:
  "marks_follow_submits [] (snd (snd (run env wh)))"
proof (cases env wh rule: run_cases)
  case NoLoop
  then show ?thesis by (simp add: marks_follow_submits_no_marks)
next
  case (Loop rows uuids pp rp)
  define L where "L = for_groups env
            \<lparr>study_uuids = uuids, plate_purpose_uuids = [PLATE \<mapsto> pp, TUBE_RACK \<mapsto> rp]\<rparr>
            None (groupby container_barcode rows) wh"
  from run_loop_calls(8) [OF Loop L_def] obtain pre where
    p: "snd (snd (run env wh)) = pre @ snd (snd L)" "submitted pre = []" "marked pre = []"
    by blast
  have "marks_follow_submits [] (snd (snd L))"
    unfolding L_def by (rule for_groups_marks_follow) simp
  then show ?thesis
    using p by (simp add: marks_follow_submits_append marks_follow_submits_no_marks)
qed

theorem marker_write_follows_its_submissions_witness:
  "marks_follow_submits [] (snd (snd (run sample_env (sample_wh abc_rows))))
   \<and> marked (snd (snd (run sample_env (sample_wh abc_rows)))) \<noteq> []"
proof -
  have "marked (snd (snd (run sample_env (sample_wh abc_rows)))) \<noteq> []"
    by code_simp
  then show ?thesis
    using marker_write_follows_its_submissions [of sample_env "sample_wh abc_rows"] by simp
qed

subsection \<open>One marker update for each run of successes\<close>

text \<open>
  C2, as stated: the containers whose submission succeeded are marked by one single
  warehouse write for the whole run. It fails for \<open>A\<close>, \<open>B\<close>, \<open>C\<close> with \<open>B\<close> refused:
  the run issues two updates, one for \<open>A\<close> and one for \<open>C\<close>.
\<close>

theorem two_marker_writes_for_split_successes:
  "marked (snd (snd (run sample_env (sample_wh abc_rows)))) = [[''A''], [''C'']]"
  by code_simp

text \<open>
  C2, amended: in a run in which no collaborator raises, the loop issues one marker
  update for each maximal run of consecutive successes in the sequence of outcomes, with
  the barcodes of that run; together the updates name the containers whose submission
  succeeded, in order, and the warehouse ends with exactly their rows marked.
\<close>

theorem successes_marked_run_by_run:
  assumes "fst (get_unwrangled_labware (MLWH_DB_TABLE env) (CGAP_EXTRACTION_DESTINATION env) wh)
           = Inr rows"
    and "rows \<noteq> []"
    and "fst (get_study_uuids env (remdups (map study rows))) = Inr uuids"
    and "fst (get_plate_purpose_uuid env) = Inr pp"
    and "fst (get_tube_rack_purpose_uuid env) = Inr rp"
    and "map (\<lambda>g. fst (create_labware env
                  \<lparr>study_uuids = uuids, plate_purpose_uuids = [PLATE \<mapsto> pp, TUBE_RACK \<mapsto> rp]\<rparr> g))
           (groupby container_barcode rows) = map Inr rs"
    and "tables wh (MLWH_DB_TABLE env) = Some tbl"
  shows "fst (run env wh) = Inr ()
       \<and> marked (snd (snd (run env wh))) =
           map (\<lambda>kg. map barcode (snd kg)) (filter fst (groupby successful rs))
       \<and> concat (marked (snd (snd (run env wh)))) = map barcode (filter successful rs)
       \<and> fst (snd (run env wh)) =
           wh\<lparr>tables := (tables wh)(MLWH_DB_TABLE env \<mapsto>
                 map (mark_row (now wh) (map barcode (filter successful rs))) tbl)\<rparr>"
proof -
  define L where "L = for_groups env
            \<lparr>study_uuids = uuids, plate_purpose_uuids = [PLATE \<mapsto> pp, TUBE_RACK \<mapsto> rp]\<rparr>
            None (groupby container_barcode rows) wh"
  note rl = run_loop_calls [OF assms(1-5) L_def]
  have t: "tables wh (MLWH_DB_TABLE env) \<noteq> None" using assms(7) by simp
  from for_groups_ok [OF assms(6) t t, of None, folded L_def]
  have ok: "fst L = Inr ()"
    and m: "marked (snd (snd L)) =
              map (\<lambda>kg. map barcode (snd kg)) (filter fst (groupby successful rs))"
    by simp_all
  have c: "concat (marked (snd (snd L))) = map barcode (filter successful rs)"
    unfolding m by (rule groupby_successes)
  have w: "fst (snd L) = wh\<lparr>tables := (tables wh)(MLWH_DB_TABLE env \<mapsto>
                 map (mark_row (now wh) (concat (marked (snd (snd L))))) tbl)\<rparr>"
    unfolding L_def using assms(7) by (rule for_groups_warehouse)
  show ?thesis
    unfolding rl(1) rl(2) rl(3) w c using ok m by simp
qed

theorem successes_marked_run_by_run_witness:
  "fst (run sample_env (sample_wh abc_rows)) = Inr ()
   \<and> marked (snd (snd (run sample_env (sample_wh abc_rows)))) =
       map (\<lambda>kg. map barcode (snd kg)) (filter fst (groupby successful abc_responses))
   \<and> concat (marked (snd (snd (run sample_env (sample_wh abc_rows))))) =
       map barcode (filter successful abc_responses)
   \<and> map barcode (filter successful abc_responses) = [''A'', ''C'']"
proof -
  have "map barcode (filter successful abc_responses) = [''A'', ''C'']"
    by (simp add: abc_responses_def)
  then show ?thesis
    using successes_marked_run_by_run [OF abc_fetch abc_fetched_not_empty abc_study_uuids
        abc_purposes abc_outcomes abc_table]
    by blast
qed

subsection \<open>The commit of a partial failure\<close>

text \<open>
  C1: when the fetched rows form the containers \<open>A\<close>, \<open>B\<close>, \<open>C\<close> in this order, the
  submissions of \<open>A\<close> and \<open>C\<close> return the status CREATED and the submission of \<open>B\<close>
  returns another status, then \<open>run\<close> ends without an exception, its marker updates
  cover the barcodes \<open>A\<close> and \<open>C\<close> and no other, the rows of \<open>B\<close> are as they were, and
  the error log has the barcode of \<open>B\<close> and then the body of its response.
\<close>

theorem partial_failure_commit:
  assumes "fst (get_unwrangled_labware (MLWH_DB_TABLE env) (CGAP_EXTRACTION_DESTINATION env) wh)
           = Inr rows"
    and "fst (get_study_uuids env (remdups (map study rows))) = Inr uuids"
    and "fst (get_plate_purpose_uuid env) = Inr pp"
    and "fst (get_tube_rack_purpose_uuid env) = Inr rp"
    and "tables wh (MLWH_DB_TABLE env) = Some tbl"
    and "groupby container_barcode rows = [(A, ra), (B, rb), (C, rc)]"
    and "fst (create_labware env
                \<lparr>study_uuids = uuids, plate_purpose_uuids = [PLATE \<mapsto> pp, TUBE_RACK \<mapsto> rp]\<rparr>
                (A, ra)) = Inr xa"
    and "successful xa"
    and "fst (create_labware env
                \<lparr>study_uuids = uuids, plate_purpose_uuids = [PLATE \<mapsto> pp, TUBE_RACK \<mapsto> rp]\<rparr>
                (B, rb)) = Inr xb"
    and "\<not> successful xb"
    and "fst (create_labware env
                \<lparr>study_uuids = uuids, plate_purpose_uuids = [PLATE \<mapsto> pp, TUBE_RACK \<mapsto> rp]\<rparr>
                (C, rc)) = Inr xc"
    and "successful xc"
  shows "fst (run env wh) = Inr ()
       \<and> marked (snd (snd (run env wh))) = [[A], [C]]
       \<and> fst (snd (run env wh)) =
           wh\<lparr>tables := (tables wh)(MLWH_DB_TABLE env \<mapsto> map (mark_row (now wh) [A, C]) tbl)\<rparr>
       \<and> filter (\<lambda>r. container_barcode r = B) (map (mark_row (now wh) [A, C]) tbl) =
           filter (\<lambda>r. container_barcode r = B) tbl
       \<and> filter is_report (snd (snd (run env wh))) =
           [LogInfo ''Starting cgap extraction job'',
            ExecuteUpdate (MLWH_DB_TABLE env) [A],
            LogInfo (''The following labware were successfully created: '' @ A),
            LogError (''The following labware failed to be created: '' @ B),
            LogError (body xb),
            ExecuteUpdate (MLWH_DB_TABLE env) [C],
            LogInfo (''The following labware were successfully created: '' @ C)]"
proof -
  let ?kw = "\<lparr>study_uuids = uuids, plate_purpose_uuids = [PLATE \<mapsto> pp, TUBE_RACK \<mapsto> rp]\<rparr>"
  define L where "L = for_groups env ?kw None (groupby container_barcode rows) wh"
  have ne: "rows \<noteq> []" using assms(6) by auto
  note rl = run_loop_calls [OF assms(1) ne assms(2-4) L_def]
  have t: "tables wh (MLWH_DB_TABLE env) \<noteq> None" using assms(5) by simp
  have bc: "barcode xa = A" "barcode xb = B" "barcode xc = C"
    using create_labware_ok [of env ?kw "(A, ra)" xa "snd (create_labware env ?kw (A, ra))"]
      create_labware_ok [of env ?kw "(B, rb)" xb "snd (create_labware env ?kw (B, rb))"]
      create_labware_ok [of env ?kw "(C, rc)" xc "snd (create_labware env ?kw (C, rc))"]
      assms(7,9,11)
    by (simp_all add: prod_eq_iff)
  have oks: "map (\<lambda>g. fst (create_labware env ?kw g)) (groupby container_barcode rows) =
               map Inr [xa, xb, xc]"
    unfolding assms(6) using assms(7,9,11) by simp
  have gb: "groupby successful [xa, xb, xc] = [(True, [xa]), (False, [xb]), (True, [xc])]"
    using assms(8,10,12) by simp
  from for_groups_ok [OF oks t t, of None, folded L_def, unfolded option.case append_Nil gb]
  have ok: "fst L = Inr ()"
    and m: "marked (snd (snd L)) = [[A], [C]]"
    and rp: "filter is_report (snd (snd L)) =
               snd (snd (report_group env True [xa] wh)) @
               snd (snd (report_group env False [xb] wh)) @
               snd (snd (report_group env True [xc] wh))"
    using bc by simp_all
  have w: "fst (snd L) = wh\<lparr>tables := (tables wh)(MLWH_DB_TABLE env \<mapsto>
                 map (mark_row (now wh) (concat (marked (snd (snd L))))) tbl)\<rparr>"
    unfolding L_def using assms(5) by (rule for_groups_warehouse)
  have "sorted (map container_barcode rows)"
    using assms(1) by (rule fetch_ok(3))
  then have "distinct (map fst (groupby container_barcode rows))"
    by (rule groupby_distinct)
  then have d: "B \<noteq> A" "B \<noteq> C"
    unfolding assms(6) by auto
  have same: "filter (\<lambda>r. container_barcode r = B) (map (mark_row (now wh) [A, C]) tbl) =
                filter (\<lambda>r. container_barcode r = B) tbl"
    using d by (induction tbl) (auto simp: mark_row_def)
  have logs: "snd (snd (report_group env True [xa] wh)) =
                [ExecuteUpdate (MLWH_DB_TABLE env) [A],
                 LogInfo (''The following labware were successfully created: '' @ A)]"
    "snd (snd (report_group env False [xb] wh)) =
                [LogError (''The following labware failed to be created: '' @ B),
                 LogError (body xb)]"
    "snd (snd (report_group env True [xc] wh)) =
                [ExecuteUpdate (MLWH_DB_TABLE env) [C],
                 LogInfo (''The following labware were successfully created: '' @ C)]"
    using assms(5) bc by (simp_all add: report_group_def update_wrangled_labware_def)
  show ?thesis
    unfolding rl(1) rl(2) rl(3) rl(6) w m rp logs using ok same by simp
qed

theorem partial_failure_commit_witness:
  "fst (run sample_env (sample_wh abc_rows)) = Inr ()
   \<and> marked (snd (snd (run sample_env (sample_wh abc_rows)))) = [[''A''], [''C'']]
   \<and> filter (\<lambda>r. container_barcode r = ''B'')
        (map (mark_row (now (sample_wh abc_rows)) [''A'', ''C'']) abc_rows) =
      filter (\<lambda>r. container_barcode r = ''B'') abc_rows
   \<and> filter is_report (snd (snd (run sample_env (sample_wh abc_rows)))) =
       [LogInfo ''Starting cgap extraction job'',
        ExecuteUpdate (MLWH_DB_TABLE sample_env) [''A''],
        LogInfo (''The following labware were successfully created: '' @ ''A''),
        LogError (''The following labware failed to be created: '' @ ''B''),
        LogError (body \<lparr>barcode = ''B'', body = ''B is taken'', successful = False\<rparr>),
        ExecuteUpdate (MLWH_DB_TABLE sample_env) [''C''],
        LogInfo (''The following labware were successfully created: '' @ ''C'')]"
proof -
  have s: "successful \<lparr>barcode = ''A'', body = ''created'', successful = True\<rparr>"
    "\<not> successful \<lparr>barcode = ''B'', body = ''B is taken'', successful = False\<rparr>"
    "successful \<lparr>barcode = ''C'', body = ''created'', successful = True\<rparr>"
    by simp_all
  show ?thesis
    using partial_failure_commit [OF abc_fetch abc_study_uuids abc_purposes abc_table abc_groups
        abc_outcome(1) s(1) abc_outcome(2) s(2) abc_outcome(3) s(3)]
    by blast
qed

subsection \<open>The resolver lookups of a run\<close>

lemma lookups_split:
  "lookups evs = [] \<Longrightarrow> lookups (dropWhile P evs) = []"
proof -
  assume a: "lookups evs = []"
  have "lookups (takeWhile P evs @ dropWhile P evs) = []" using a by simp
  then show ?thesis unfolding lookups_append by simp
qed

text \<open>
  C6: a run that has fetched at least one row, and whose resolver answers, makes one
  study lookup for each study name among the rows, none twice, then the lookup of the
  plate purpose and the lookup of the tube rack purpose, and no other lookup; from the
  first submission on there is no lookup.
\<close>

theorem batch_resolution_bound:
  assumes "fst (get_unwrangled_labware (MLWH_DB_TABLE env) (CGAP_EXTRACTION_DESTINATION env) wh)
           = Inr rows"
    and "rows \<noteq> []"
    and "fst (get_study_uuids env (remdups (map study rows))) = Inr uuids"
    and "fst (get_plate_purpose_uuid env) = Inr pp"
    and "fst (get_tube_rack_purpose_uuid env) = Inr rp"
  shows "lookups (snd (snd (run env wh))) =
           map (Pair (STUDY_ENTITY env)) (remdups (map study rows))
           @ [(PLATE_PURPOSE_ENTITY env, LYSATE_PLATE_PURPOSE env),
              (PLATE_PURPOSE_ENTITY env, LYSATE_TR_PURPOSE env)]
       \<and> distinct (remdups (map study rows))
       \<and> set (remdups (map study rows)) = study ` set rows
       \<and> length (lookups (snd (snd (run env wh)))) = card (study ` set rows) + 2
       \<and> lookups (dropWhile (\<lambda>e. \<not> is_submit e) (snd (snd (run env wh)))) = []"
proof -
  define L where "L = for_groups env
            \<lparr>study_uuids = uuids, plate_purpose_uuids = [PLATE \<mapsto> pp, TUBE_RACK \<mapsto> rp]\<rparr>
            None (groupby container_barcode rows) wh"
  note rl = run_loop_calls [OF assms L_def]
  have nl: "lookups (snd (snd L)) = []"
    unfolding L_def by (rule for_groups_no_lookups)
  from rl(8) obtain pre where
    p: "snd (snd (run env wh)) = pre @ snd (snd L)" and f: "filter is_submit pre = []"
    by blast
  have "\<And>e. e \<in> set pre \<Longrightarrow> \<not> is_submit e"
    using f by (simp add: filter_empty_conv)
  then have "dropWhile (\<lambda>e. \<not> is_submit e) (pre @ snd (snd L)) =
               dropWhile (\<lambda>e. \<not> is_submit e) (snd (snd L))"
    by (rule dropWhile_append2)
  then have "lookups (dropWhile (\<lambda>e. \<not> is_submit e) (snd (snd (run env wh)))) = []"
    unfolding p using lookups_split [OF nl] by simp
  moreover have "length (remdups (map study rows)) = card (study ` set rows)"
    using length_remdups_card_conv [of "map study rows"] by simp
  ultimately show ?thesis
    using rl(7) nl by simp
qed

theorem batch_resolution_bound_witness:
  "lookups (snd (snd (run sample_env (sample_wh abc_rows)))) =
     [(''studies'', ''s2''), (''studies'', ''s1''),
      (''plate_purposes'', ''Plate Lysate''), (''plate_purposes'', ''TR Lysate'')]
   \<and> length abc_fetched = 4"
proof -
  have "remdups (map study abc_fetched) = [''s2'', ''s1'']" "length abc_fetched = 4"
    by (simp_all add: abc_fetched_def sample_row_def)
  then show ?thesis
    using batch_resolution_bound [OF abc_fetch abc_fetched_not_empty abc_study_uuids abc_purposes]
    by (simp add: sample_env_def)
qed

subsection \<open>The order of the containers\<close>

lemma create_labware_block:
  "create_labware env kw g = (Inr r, evs) \<Longrightarrow> container_block (fst g) evs"
  by (auto simp: create_labware_def Let_def
      split: prod.splits sum.splits list.splits if_splits)

lemma submitted_container_calls: "submitted (filter is_container_call evs) = submitted evs"
proof (induction evs)
  case Nil
  then show ?case by simp
next
  case (Cons e evs)
  then show ?case by (cases e) (simp_all add: submitted_def)
qed

lemma outcomes_in_order:
  assumes "map (\<lambda>g. fst (create_labware env kw g)) gs = map Inr rs"
  shows "map barcode rs = map fst gs"
    and "submitted (concat (map (\<lambda>g. snd (create_labware env kw g)) gs)) = map fst gs"
    and "list_all (\<lambda>g. container_block (fst g) (snd (create_labware env kw g))) gs"
  using assms
proof (induction gs arbitrary: rs)
  case Nil
  {
    case 1 then show ?case by simp
  next
    case 2 then show ?case by (simp add: submitted_def)
  next
    case 3 then show ?case by simp
  }
next
  case (Cons g gs)
  {
    case 1
    then obtain r rs0 where rs: "rs = r # rs0"
      and c: "fst (create_labware env kw g) = Inr r"
      and rest: "map (\<lambda>g. fst (create_labware env kw g)) gs = map Inr rs0"
      by (cases rs) auto
    from c have "create_labware env kw g = (Inr r, snd (create_labware env kw g))"
      by (simp add: prod_eq_iff)
    from create_labware_ok [OF this] Cons(1) [OF rest] show ?case
      unfolding rs by simp
  next
    case 2
    then obtain r rs0 where rs: "rs = r # rs0"
      and c: "fst (create_labware env kw g) = Inr r"
      and rest: "map (\<lambda>g. fst (create_labware env kw g)) gs = map Inr rs0"
      by (cases rs) auto
    from c have "create_labware env kw g = (Inr r, snd (create_labware env kw g))"
      by (simp add: prod_eq_iff)
    from create_labware_ok [OF this] Cons(2) [OF rest] show ?case
      by (simp add: submitted_append)
  next
    case 3
    then obtain r rs0 where rs: "rs = r # rs0"
      and c: "fst (create_labware env kw g) = Inr r"
      and rest: "map (\<lambda>g. fst (create_labware env kw g)) gs = map Inr rs0"
      by (cases rs) auto
    from c have "create_labware env kw g = (Inr r, snd (create_labware env kw g))"
      by (simp add: prod_eq_iff)
    from create_labware_block [OF this] Cons(3) [OF rest] show ?case
      by simp
  }
qed

lemma groupby_runs:
  "list_all (\<lambda>kg. snd kg \<noteq> [] \<and> list_all (\<lambda>x. f x = fst kg) (snd kg)) (groupby f xs)"
  unfolding list_all_iff using groupby_groups [of _ _ f xs] by auto

lemma groupby_sorted_keys:
  fixes f :: "'a \<Rightarrow> 'k::linorder"
  shows "sorted (map f xs) \<Longrightarrow> sorted (map fst (groupby f xs))"
proof (induction f xs rule: groupby.induct)
  case (1 f)
  then show ?case by simp
next
  case (2 f x xs)
  let ?d = "dropWhile (\<lambda>y. f y = f x) xs"
  have sx: "sorted (map f xs)" and le: "\<forall>z\<in>set xs. f x \<le> f z"
    using "2.prems" by simp_all
  have sd: "sorted (map f ?d)"
    using sx by (rule sorted_dropWhile)
  have "\<And>k. k \<in> fst ` set (groupby f ?d) \<Longrightarrow> f x \<le> k"
  proof -
    fix k
    assume "k \<in> fst ` set (groupby f ?d)"
    then have "k \<in> f ` set ?d" unfolding groupby_keys .
    then obtain z where z: "z \<in> set ?d" and k: "k = f z" ..
    from z have "z \<in> set xs" by (rule set_dropWhileD)
    then show "f x \<le> k" unfolding k using le by simp
  qed
  then show ?case using "2.IH" [OF sd] by simp
qed

lemma report_group_events:
  assumes "tables wh (MLWH_DB_TABLE env) \<noteq> None" and "rs \<noteq> []"
  shows "snd (snd (report_group env k rs wh)) =
           (if k
            then [ExecuteUpdate (MLWH_DB_TABLE env) (map barcode rs),
                  LogInfo (''The following labware were successfully created: ''
                           @ join '','' (map barcode rs))]
            else LogError (''The following labware failed to be created: ''
                           @ join '','' (map barcode rs))
                 # map (\<lambda>r. LogError (body r)) rs)"
  using assms
  by (auto simp: report_group_def update_wrangled_labware_def Let_def split: option.splits)

lemma abcd_fetch:
  "fst (get_unwrangled_labware (MLWH_DB_TABLE sample_env) (CGAP_EXTRACTION_DESTINATION sample_env)
         (sample_wh abcd_rows)) = Inr abcd_fetched"
  by code_simp

lemma abcd_fetched_not_empty: "abcd_fetched \<noteq> []"
  by (simp add: abcd_fetched_def)

lemma abcd_study_uuids:
  "fst (get_study_uuids sample_env (remdups (map study abcd_fetched))) =
     Inr [''s2'' \<mapsto> ''uuid of s2'', ''s1'' \<mapsto> ''uuid of s1'']"
  by (simp add: get_study_uuids_def abcd_fetched_def sample_row_def sample_env_def)

lemma abcd_groups:
  "groupby container_barcode abcd_fetched =
     [(''A'', [sample_row ''A'' ''s1'', sample_row ''A'' ''s1'']),
      (''B'', [sample_row ''B'' ''s2'']),
      (''C'', [sample_row ''C'' ''s1'']),
      (''D'', [sample_row ''D'' ''s1''])]"
  by (simp add: abcd_fetched_def sample_row_def)

lemma abcd_outcomes:
  "map (\<lambda>g. fst (create_labware sample_env
                  \<lparr>study_uuids = [''s2'' \<mapsto> ''uuid of s2'', ''s1'' \<mapsto> ''uuid of s1''],
                   plate_purpose_uuids = [PLATE \<mapsto> ''uuid of Plate Lysate'',
                                          TUBE_RACK \<mapsto> ''uuid of TR Lysate'']\<rparr> g))
     (groupby container_barcode abcd_fetched) = map Inr abcd_responses"
  unfolding abcd_groups
  by (simp add: create_labware_def sample_env_def sample_row_def abcd_responses_def
      HTTP_CREATED_def)

lemma abcd_outcome_groups:
  "groupby successful abcd_responses =
     [(True, [\<lparr>barcode = ''A'', body = ''created'', successful = True\<rparr>]),
      (False, [\<lparr>barcode = ''B'', body = ''B is taken'', successful = False\<rparr>]),
      (True, [\<lparr>barcode = ''C'', body = ''created'', successful = True\<rparr>,
              \<lparr>barcode = ''D'', body = ''created'', successful = True\<rparr>])]"
  by (simp add: abcd_responses_def)

text \<open>
  C8: the rows that \<open>get_unwrangled_labware\<close> returns are sorted by container barcode.
  In a run in which no collaborator raises, the containers are the groups of consecutive
  rows with equal barcodes, every barcode in one group; the calls for the containers
  come container after container in the order of the rows, each container classified,
  built and submitted before the next is classified, and the responses carry the
  barcodes of the containers in that order. After the starting line, the marker updates
  and the log lines of the run are, for each group of consecutive equal outcomes in
  turn: for successes, the update of the table with the barcodes of the group in order
  and then the line naming them; for failures, the line naming the barcodes of the
  group in order and then the body of each response in order. So the barcodes the
  reports name, read in order, are the barcodes of the containers in the order of the
  rows, and the barcodes the marker updates name are in ascending order, none twice.
\<close>

theorem order_preservation:
  assumes "fst (get_unwrangled_labware (MLWH_DB_TABLE env) (CGAP_EXTRACTION_DESTINATION env) wh)
           = Inr rows"
    and "rows \<noteq> []"
    and "fst (get_study_uuids env (remdups (map study rows))) = Inr uuids"
    and "fst (get_plate_purpose_uuid env) = Inr pp"
    and "fst (get_tube_rack_purpose_uuid env) = Inr rp"
    and "map (\<lambda>g. fst (create_labware env
                  \<lparr>study_uuids = uuids, plate_purpose_uuids = [PLATE \<mapsto> pp, TUBE_RACK \<mapsto> rp]\<rparr> g))
           (groupby container_barcode rows) = map Inr rs"
  shows "sorted (map container_barcode rows)
       \<and> concat (map snd (groupby container_barcode rows)) = rows
       \<and> distinct (map fst (groupby container_barcode rows))
       \<and> list_all (\<lambda>kg. snd kg \<noteq> [] \<and> list_all (\<lambda>r. container_barcode r = fst kg) (snd kg))
           (groupby container_barcode rows)
       \<and> filter is_container_call (snd (snd (run env wh))) =
           concat (map (\<lambda>g. snd (create_labware env
                  \<lparr>study_uuids = uuids, plate_purpose_uuids = [PLATE \<mapsto> pp, TUBE_RACK \<mapsto> rp]\<rparr> g))
             (groupby container_barcode rows))
       \<and> list_all (\<lambda>g. container_block (fst g) (snd (create_labware env
                  \<lparr>study_uuids = uuids, plate_purpose_uuids = [PLATE \<mapsto> pp, TUBE_RACK \<mapsto> rp]\<rparr> g)))
           (groupby container_barcode rows)
       \<and> submitted (snd (snd (run env wh))) = map fst (groupby container_barcode rows)
       \<and> map barcode rs = map fst (groupby container_barcode rows)
       \<and> filter is_report (snd (snd (run env wh))) =
           LogInfo ''Starting cgap extraction job''
           # concat (map (\<lambda>kg.
                        if fst kg
                        then [ExecuteUpdate (MLWH_DB_TABLE env) (map barcode (snd kg)),
                              LogInfo (''The following labware were successfully created: ''
                                       @ join '','' (map barcode (snd kg)))]
                        else LogError (''The following labware failed to be created: ''
                                       @ join '','' (map barcode (snd kg)))
                             # map (\<lambda>r. LogError (body r)) (snd kg))
                      (groupby successful rs))
       \<and> concat (map (\<lambda>kg. map barcode (snd kg)) (groupby successful rs)) =
           map fst (groupby container_barcode rows)
       \<and> concat (marked (snd (snd (run env wh)))) = map barcode (filter successful rs)
       \<and> sorted (concat (marked (snd (snd (run env wh)))))
       \<and> distinct (concat (marked (snd (snd (run env wh)))))"
proof -
  let ?kw = "\<lparr>study_uuids = uuids, plate_purpose_uuids = [PLATE \<mapsto> pp, TUBE_RACK \<mapsto> rp]\<rparr>"
  let ?gs = "groupby container_barcode rows"
  let ?lines = "\<lambda>kg. if fst kg
                        then [ExecuteUpdate (MLWH_DB_TABLE env) (map barcode (snd kg)),
                              LogInfo (''The following labware were successfully created: ''
                                       @ join '','' (map barcode (snd kg)))]
                        else LogError (''The following labware failed to be created: ''
                                       @ join '','' (map barcode (snd kg)))
                             # map (\<lambda>r. LogError (body r)) (snd kg)"
  define L where "L = for_groups env ?kw None ?gs wh"
  note rl = run_loop_calls [OF assms(1-5) L_def]
  have t: "tables wh (MLWH_DB_TABLE env) \<noteq> None"
    using fetch_ok(2) [OF assms(1)] by auto
  note io = outcomes_in_order [OF assms(6)]
  from for_groups_ok [OF assms(6) t t, of None, folded L_def, unfolded option.case append_Nil]
  have cc: "filter is_container_call (snd (snd L)) =
              concat (map (\<lambda>g. snd (create_labware env ?kw g)) ?gs)"
    and rp: "filter is_report (snd (snd L)) =
              concat (map (\<lambda>kg. snd (snd (report_group env (fst kg) (snd kg) wh)))
                (groupby successful rs))"
    and mk: "marked (snd (snd L)) =
              map (\<lambda>kg. map barcode (snd kg)) (filter fst (groupby successful rs))"
    by blast+
  have "\<And>kg. kg \<in> set (groupby successful rs) \<Longrightarrow>
          snd (snd (report_group env (fst kg) (snd kg) wh)) = ?lines kg"
  proof -
    fix kg
    assume "kg \<in> set (groupby successful rs)"
    then have "(fst kg, snd kg) \<in> set (groupby successful rs)" by simp
    from groupby_groups [OF this] have "snd kg \<noteq> []" by simp
    with t show "snd (snd (report_group env (fst kg) (snd kg) wh)) = ?lines kg"
      by (rule report_group_events)
  qed
  then have "map (\<lambda>kg. snd (snd (report_group env (fst kg) (snd kg) wh)))
               (groupby successful rs) = map ?lines (groupby successful rs)"
    by (rule map_cong [OF refl])
  then have ev: "filter is_report (snd (snd L)) = concat (map ?lines (groupby successful rs))"
    unfolding rp by (rule arg_cong)
  have s: "sorted (map container_barcode rows)"
    using assms(1) by (rule fetch_ok(3))
  have sub: "submitted (snd (snd (run env wh))) = map fst ?gs"
    unfolding rl(4) using submitted_container_calls [of "snd (snd L)"] cc io(2) by simp
  have "concat (map (\<lambda>kg. map barcode (snd kg)) (groupby successful rs)) =
          map barcode (concat (map snd (groupby successful rs)))"
    by (simp add: map_concat comp_def)
  then have rep: "concat (map (\<lambda>kg. map barcode (snd kg)) (groupby successful rs)) = map fst ?gs"
    unfolding groupby_concat io(1) .
  have c: "concat (marked (snd (snd (run env wh)))) = map barcode (filter successful rs)"
    unfolding rl(3) mk by (rule groupby_successes)
  have "sorted (map barcode rs)"
    unfolding io(1) using s by (rule groupby_sorted_keys)
  then have so: "sorted (concat (marked (snd (snd (run env wh)))))"
    unfolding c by (rule sorted_filter)
  have "distinct (map barcode rs)"
    unfolding io(1) using s by (rule groupby_distinct)
  then have di: "distinct (concat (marked (snd (snd (run env wh)))))"
    unfolding c by (rule distinct_map_filter)
  show ?thesis
    using s groupby_concat [of container_barcode rows] groupby_distinct [OF s]
      groupby_runs [of container_barcode rows] rl(5) [unfolded cc] io(3) sub io(1)
      rl(6) [unfolded ev] rep c so di
    by blast
qed

theorem order_preservation_witness:
  "submitted (snd (snd (run sample_env (sample_wh abcd_rows)))) = [''A'', ''B'', ''C'', ''D'']
   \<and> map barcode abcd_responses = [''A'', ''B'', ''C'', ''D'']
   \<and> filter is_report (snd (snd (run sample_env (sample_wh abcd_rows)))) =
       [LogInfo ''Starting cgap extraction job'',
        ExecuteUpdate ''cgap_heron'' [''A''],
        LogInfo ''The following labware were successfully created: A'',
        LogError ''The following labware failed to be created: B'',
        LogError ''B is taken'',
        ExecuteUpdate ''cgap_heron'' [''C'', ''D''],
        LogInfo ''The following labware were successfully created: C,D'']
   \<and> concat (map (\<lambda>kg. map barcode (snd kg)) (groupby successful abcd_responses)) =
       [''A'', ''B'', ''C'', ''D'']
   \<and> concat (marked (snd (snd (run sample_env (sample_wh abcd_rows))))) = [''A'', ''C'', ''D'']"
proof -
  have g: "map fst (groupby container_barcode abcd_fetched) = [''A'', ''B'', ''C'', ''D'']"
    unfolding abcd_groups by simp
  have f: "map barcode (filter successful abcd_responses) = [''A'', ''C'', ''D'']"
    by (simp add: abcd_responses_def)
  have t: "MLWH_DB_TABLE sample_env = ''cgap_heron''"
    by (simp add: sample_env_def)
  have j: "join '','' [''A''] = ''A''" "join '','' [''B''] = ''B''"
    "join '','' [''C'', ''D''] = ''C,D''"
    by code_simp+
  have r: "concat (map (\<lambda>kg. map barcode (snd kg)) (groupby successful abcd_responses)) =
             [''A'', ''B'', ''C'', ''D'']"
    unfolding abcd_outcome_groups by simp
  show ?thesis
    using r order_preservation [OF abcd_fetch abcd_fetched_not_empty abcd_study_uuids
        abc_purposes abcd_outcomes, unfolded abcd_outcome_groups g f t]
    by (simp add: j)
qed

subsection \<open>No container is submitted twice\<close>

lemma mark_row_marked:
  "container_barcode (mark_row t bs r) = container_barcode r"
  "container_barcode r \<in> set bs \<Longrightarrow> wrangled (mark_row t bs r) = Some t"
  by (simp_all add: mark_row_def)

lemma run_marks_rows:
  assumes "tables (fst (snd (run env wh))) (MLWH_DB_TABLE env) = Some tbl'"
    and "r \<in> set tbl'"
    and "container_barcode r \<in> set (concat (marked (snd (snd (run env wh)))))"
  shows "wrangled r \<noteq> None"
proof (cases env wh rule: run_cases)
  case NoLoop
  then show ?thesis using assms(3) by simp
next
  case (Loop rows uuids pp rp)
  define L where "L = for_groups env
            \<lparr>study_uuids = uuids, plate_purpose_uuids = [PLATE \<mapsto> pp, TUBE_RACK \<mapsto> rp]\<rparr>
            None (groupby container_barcode rows) wh"
  note rl = run_loop_calls [OF Loop L_def]
  obtain tbl where t: "tables wh (MLWH_DB_TABLE env) = Some tbl"
    using fetch_ok(2) [OF Loop(1)] by blast
  have "fst (snd L) = wh\<lparr>tables := (tables wh)(MLWH_DB_TABLE env \<mapsto>
                 map (mark_row (now wh) (concat (marked (snd (snd L))))) tbl)\<rparr>"
    unfolding L_def using t by (rule for_groups_warehouse)
  then have "tbl' = map (mark_row (now wh) (concat (marked (snd (snd (run env wh)))))) tbl"
    using assms(1) unfolding rl(2) rl(3) by simp
  then obtain r0 where r: "r = mark_row (now wh) (concat (marked (snd (snd (run env wh))))) r0"
    using assms(2) by auto
  then have "container_barcode r0 \<in> set (concat (marked (snd (snd (run env wh)))))"
    using assms(3) by (simp add: mark_row_marked(1))
  then show ?thesis unfolding r by (simp add: mark_row_marked(2))
qed

lemma run_marked_not_fetched:
  assumes "fst (get_unwrangled_labware (MLWH_DB_TABLE env) dest (fst (snd (run env wh))))
           = Inr rows'"
  shows "set (map container_barcode rows') \<inter> set (concat (marked (snd (snd (run env wh))))) = {}"
proof -
  from fetch_ok(2) [OF assms] obtain tbl' where
    t: "tables (fst (snd (run env wh))) (MLWH_DB_TABLE env) = Some tbl'"
    and r: "rows' = sort_key container_barcode
                      (filter (\<lambda>r. destination r = dest \<and> wrangled r = None) tbl')"
    by blast
  have "\<And>x. x \<in> set rows' \<Longrightarrow>
          container_barcode x \<notin> set (concat (marked (snd (snd (run env wh)))))"
  proof
    fix x
    assume x: "x \<in> set rows'"
      and m: "container_barcode x \<in> set (concat (marked (snd (snd (run env wh)))))"
    from x have "x \<in> set tbl'" and "wrangled x = None"
      unfolding r by simp_all
    then show False using run_marks_rows [OF t _ m] by blast
  qed
  then show ?thesis by auto
qed

lemma run_submits_fetched:
  assumes "b \<in> set (submitted (snd (snd (run env wh))))"
  shows "\<exists>rows. fst (get_unwrangled_labware (MLWH_DB_TABLE env)
                       (CGAP_EXTRACTION_DESTINATION env) wh) = Inr rows
               \<and> b \<in> container_barcode ` set rows"
proof (cases env wh rule: run_cases)
  case NoLoop
  then show ?thesis using assms by simp
next
  case (Loop rows uuids pp rp)
  define L where "L = for_groups env
            \<lparr>study_uuids = uuids, plate_purpose_uuids = [PLATE \<mapsto> pp, TUBE_RACK \<mapsto> rp]\<rparr>
            None (groupby container_barcode rows) wh"
  note rl = run_loop_calls [OF Loop L_def]
  have "set (submitted (snd (snd L))) \<subseteq> fst ` set (groupby container_barcode rows)"
    unfolding L_def by (rule for_groups_submitted)
  then have "b \<in> container_barcode ` set rows"
    using assms unfolding rl(4) groupby_keys by blast
  then show ?thesis using Loop(1) by blast
qed

text \<open>
  C4: \<open>get_unwrangled_labware\<close> selects the rows whose \<open>wrangled\<close> column is unset and
  \<open>update_wrangled_labware\<close> sets that column, in the same table. So, for a table and
  destinations that stand for themselves in the statements, after a run, whatever
  happened in it, no container named by one of its marker updates is among the rows
  fetched from the warehouse as the run left it, and the next run on that warehouse
  submits no such container.
\<close>

theorem no_duplicate_submission:
  assumes "sql_name (MLWH_DB_TABLE env)"
    and "sql_literal (CGAP_EXTRACTION_DESTINATION env)"
  shows "(sql_literal dest \<and>
          fst (get_unwrangled_labware (MLWH_DB_TABLE env) dest (fst (snd (run env wh))))
            = Inr rows'
          \<longrightarrow> set (map container_barcode rows')
                \<inter> set (concat (marked (snd (snd (run env wh))))) = {})
       \<and> (MLWH_DB_TABLE env' = MLWH_DB_TABLE env \<and>
          sql_literal (CGAP_EXTRACTION_DESTINATION env')
          \<longrightarrow> set (submitted (snd (snd (run env' (fst (snd (run env wh)))))))
                \<inter> set (concat (marked (snd (snd (run env wh))))) = {})"
proof (intro conjI impI)
  assume "sql_literal dest \<and>
          fst (get_unwrangled_labware (MLWH_DB_TABLE env) dest (fst (snd (run env wh))))
            = Inr rows'"
  then have "fst (get_unwrangled_labware (MLWH_DB_TABLE env) dest (fst (snd (run env wh))))
            = Inr rows'"
    by simp
  then show "set (map container_barcode rows')
               \<inter> set (concat (marked (snd (snd (run env wh))))) = {}"
    by (rule run_marked_not_fetched)
next
  assume "MLWH_DB_TABLE env' = MLWH_DB_TABLE env \<and>
          sql_literal (CGAP_EXTRACTION_DESTINATION env')"
  then have e: "MLWH_DB_TABLE env' = MLWH_DB_TABLE env" by simp
  have "\<And>b. b \<in> set (submitted (snd (snd (run env' (fst (snd (run env wh))))))) \<Longrightarrow>
          b \<notin> set (concat (marked (snd (snd (run env wh)))))"
  proof
    fix b
    assume s: "b \<in> set (submitted (snd (snd (run env' (fst (snd (run env wh)))))))"
      and m: "b \<in> set (concat (marked (snd (snd (run env wh)))))"
    from run_submits_fetched [OF s] obtain rows where
      f: "fst (get_unwrangled_labware (MLWH_DB_TABLE env)
             (CGAP_EXTRACTION_DESTINATION env') (fst (snd (run env wh)))) = Inr rows"
      and b: "b \<in> container_barcode ` set rows"
      unfolding e by blast
    from run_marked_not_fetched [OF f] b m show False by auto
  qed
  then show "set (submitted (snd (snd (run env' (fst (snd (run env wh)))))))
               \<inter> set (concat (marked (snd (snd (run env wh))))) = {}"
    by auto
qed

theorem no_duplicate_submission_witness:
  "sql_name (MLWH_DB_TABLE sample_env)
   \<and> sql_literal (CGAP_EXTRACTION_DESTINATION sample_env)
   \<and> fst (get_unwrangled_labware (MLWH_DB_TABLE sample_env) ''CGAP''
         (fst (snd (run sample_env (sample_wh abc_rows))))) = Inr [sample_row ''B'' ''s2'']
   \<and> concat (marked (snd (snd (run sample_env (sample_wh abc_rows))))) = [''A'', ''C'']
   \<and> submitted (snd (snd (run sample_env (fst (snd (run sample_env (sample_wh abc_rows)))))))
       = [''B'']
   \<and> set (map container_barcode [sample_row ''B'' ''s2''])
        \<inter> set (concat (marked (snd (snd (run sample_env (sample_wh abc_rows)))))) = {}
   \<and> set (submitted
             (snd (snd (run sample_env (fst (snd (run sample_env (sample_wh abc_rows))))))))
        \<inter> set (concat (marked (snd (snd (run sample_env (sample_wh abc_rows)))))) = {}"
proof -
  have p: "sql_name (MLWH_DB_TABLE sample_env)"
    "sql_literal (CGAP_EXTRACTION_DESTINATION sample_env)" "sql_literal ''CGAP''"
    by (simp_all add: sql_name_def sql_literal_def sample_env_def)
  have h: "fst (get_unwrangled_labware (MLWH_DB_TABLE sample_env) ''CGAP''
         (fst (snd (run sample_env (sample_wh abc_rows))))) = Inr [sample_row ''B'' ''s2'']"
    by code_simp
  have m: "concat (marked (snd (snd (run sample_env (sample_wh abc_rows))))) = [''A'', ''C'']"
    by code_simp
  have s: "submitted
             (snd (snd (run sample_env (fst (snd (run sample_env (sample_wh abc_rows)))))))
           = [''B'']"
    by code_simp
  show ?thesis
    using p h m s
      no_duplicate_submission [OF p(1,2), of "''CGAP''" "sample_wh abc_rows"
        "[sample_row ''B'' ''s2'']" sample_env]
    by blast
qed

subsection \<open>A container of unknown type\<close>

lemma grouper_abort:
  assumes "map (\<lambda>g. fst (create_labware env kw g)) pre = map Inr rs"
    and "create_labware env kw bad = (Inl e, ev)"
  shows "grouper env kw k (pre @ bad # post) =
           (Inl e, concat (map (\<lambda>g. snd (create_labware env kw g)) pre) @ ev)
         \<or> (\<exists>rs1 r' pre' rs' evs.
               grouper env kw k (pre @ bad # post) = (Inr (rs1, Some r', pre' @ bad # post), evs) \<and>
               map (\<lambda>g. fst (create_labware env kw g)) pre' = map Inr rs' \<and>
               evs @ concat (map (\<lambda>g. snd (create_labware env kw g)) pre') =
                 concat (map (\<lambda>g. snd (create_labware env kw g)) pre))"
  using assms(1)
proof (induction pre arbitrary: rs)
  case Nil
  then show ?case using assms(2) by simp
next
  case (Cons g pre)
  from Cons.prems obtain r rs0 where rs: "rs = r # rs0"
    and c: "fst (create_labware env kw g) = Inr r"
    and rest: "map (\<lambda>g. fst (create_labware env kw g)) pre = map Inr rs0"
    by (cases rs) auto
  obtain evg where c': "create_labware env kw g = (Inr r, evg)"
    using c by (cases "create_labware env kw g") simp
  show ?case
  proof (cases "successful r = k")
    case False
    have "grouper env kw k ((g # pre) @ bad # post) = (Inr ([], Some r, pre @ bad # post), evg)"
      using c' False by simp
    then show ?thesis using rest c' by auto
  next
    case True
    from Cons.IH [OF rest] show ?thesis
    proof
      assume "grouper env kw k (pre @ bad # post) =
                (Inl e, concat (map (\<lambda>g. snd (create_labware env kw g)) pre) @ ev)"
      then show ?thesis using c' True by simp
    next
      assume "\<exists>rs1 r' pre' rs' evs.
               grouper env kw k (pre @ bad # post) = (Inr (rs1, Some r', pre' @ bad # post), evs) \<and>
               map (\<lambda>g. fst (create_labware env kw g)) pre' = map Inr rs' \<and>
               evs @ concat (map (\<lambda>g. snd (create_labware env kw g)) pre') =
                 concat (map (\<lambda>g. snd (create_labware env kw g)) pre)"
      then obtain rs1 r' pre' rs' evs where
        g: "grouper env kw k (pre @ bad # post) = (Inr (rs1, Some r', pre' @ bad # post), evs)"
        and a: "map (\<lambda>g. fst (create_labware env kw g)) pre' = map Inr rs'"
        and b: "evs @ concat (map (\<lambda>g. snd (create_labware env kw g)) pre') =
                 concat (map (\<lambda>g. snd (create_labware env kw g)) pre)"
        by blast
      have "grouper env kw k ((g # pre) @ bad # post) =
              (Inr (r # rs1, Some r', pre' @ bad # post), evg @ evs)"
        using c' True g by simp
      moreover have "(evg @ evs) @ concat (map (\<lambda>g. snd (create_labware env kw g)) pre') =
                 concat (map (\<lambda>g. snd (create_labware env kw g)) (g # pre))"
        using b c' by simp
      ultimately show ?thesis using a by blast
    qed
  qed
qed

lemma for_groups_abort:
  assumes "gs = pre @ bad # post"
    and "map (\<lambda>g. fst (create_labware env kw g)) pre = map Inr rs"
    and "create_labware env kw bad = (Inl e, ev)"
    and "tables wh (MLWH_DB_TABLE env) \<noteq> None"
  shows "fst (for_groups env kw cv gs wh) = Inl e \<and>
         filter is_container_call (snd (snd (for_groups env kw cv gs wh))) =
           concat (map (\<lambda>g. snd (create_labware env kw g)) pre) @ ev"
  using assms
proof (induction env kw cv gs wh arbitrary: pre rs rule: for_groups_cases)
  case (Done env kw wh)
  then show ?case by simp
next
  case (First env kw g gs wh r evs)
  show ?case
  proof (cases pre)
    case Nil
    then show ?thesis using First(1,3,5) by simp
  next
    case (Cons g' pre0)
    then have g: "g' = g" and gs: "gs = pre0 @ bad # post" using First(3) by simp_all
    from First(4) First(1) obtain rs0 where
      rest: "map (\<lambda>g. fst (create_labware env kw g)) pre0 = map Inr rs0"
      unfolding Cons g by (cases rs) auto
    have e: "filter is_container_call evs = evs"
      using create_labware_calls(1) [of env kw g] First(1) by simp
    from First(2) [OF gs rest First(5) First(6)] show ?thesis
      unfolding Cons g using First(1) e by (simp add: for_groups_first)
  qed
next
  case (FirstRaises env kw g gs wh e' evs)
  show ?case
  proof (cases pre)
    case Nil
    then have "g = bad" using FirstRaises(2) by simp
    then show ?thesis
      using Nil FirstRaises(1,4) create_labware_calls(1) [of env kw bad]
      by (simp add: for_groups_first_raises)
  next
    case (Cons g' pre0)
    then have "g' = g" using FirstRaises(2) by simp
    then show ?thesis using FirstRaises(1,3) Cons by (cases rs) auto
  qed
next
  case (Group env kw r gs wh rs1 cv gs' evs wh' evs')
  from grouper_abort [OF Group(5) Group(6), of "successful r" post] Group(1)
  obtain pre' rs' where
    gs': "gs' = pre' @ bad # post"
    and a: "map (\<lambda>g. fst (create_labware env kw g)) pre' = map Inr rs'"
    and b: "evs @ concat (map (\<lambda>g. snd (create_labware env kw g)) pre') =
              concat (map (\<lambda>g. snd (create_labware env kw g)) pre)"
    unfolding Group(4) by auto
  obtain rows where t: "tables wh (MLWH_DB_TABLE env) = Some rows"
    using Group(7) by blast
  have ne: "r # rs1 \<noteq> []" by simp
  have wh': "tables wh' (MLWH_DB_TABLE env) \<noteq> None"
    using report_group_ok(2) [OF t ne, of "successful r"] Group(2) t by auto
  have e: "filter is_container_call evs = evs"
    using grouper_container_calls [of env kw "successful r" gs] Group(1) by simp
  have e': "filter is_container_call evs' = []"
    using report_group_calls(3) [of env "successful r" "r # rs1" wh] Group(2) by simp
  from Group(3) [OF gs' a Group(6) wh'] show ?case
    using Group(1,2) e e' b by (simp add: for_groups_group)
next
  case (GrouperRaises env kw r gs wh e' evs)
  from grouper_abort [OF GrouperRaises(3) GrouperRaises(4), of "successful r" post]
    GrouperRaises(1)
  have "e' = e" "evs = concat (map (\<lambda>g. snd (create_labware env kw g)) pre) @ ev"
    unfolding GrouperRaises(2) by auto
  moreover have "filter is_container_call evs = evs"
    using grouper_container_calls [of env kw "successful r" gs] GrouperRaises(1) by simp
  ultimately show ?case
    using GrouperRaises(1) by (simp add: for_groups_grouper_raises)
next
  case (ReportRaises env kw r gs wh rs1 cv gs' evs e' wh' evs')
  obtain rows where t: "tables wh (MLWH_DB_TABLE env) = Some rows"
    using ReportRaises(6) by blast
  show ?case
    using report_group_ok(1) [OF t, of "r # rs1" "successful r"] ReportRaises(2) by simp
qed

lemma marks_among_submitted:
  "marks_follow_submits seen evs \<Longrightarrow>
   set (concat (marked evs)) \<subseteq> set seen \<union> set (submitted evs)"
  by (induction seen evs rule: marks_follow_submits.induct)
    (auto simp: marked_def submitted_def)


lemma axz_fetch:
  "fst (get_unwrangled_labware (MLWH_DB_TABLE sample_env) (CGAP_EXTRACTION_DESTINATION sample_env)
         (sample_wh axz_rows)) = Inr axz_fetched"
  by code_simp

lemma axz_study_uuids:
  "fst (get_study_uuids sample_env (remdups (map study axz_fetched))) =
     Inr [''s1'' \<mapsto> ''uuid of s1'']"
  by (simp add: get_study_uuids_def axz_fetched_def sample_row_def sample_env_def)

lemma axz_groups:
  "groupby container_barcode axz_fetched =
     [(''A'', [sample_row ''A'' ''s1''])] @ (''X'', [sample_row ''X'' ''s1''])
     # [(''Z'', [sample_row ''Z'' ''s1''])]"
  by (simp add: axz_fetched_def sample_row_def)

lemma axz_outcomes:
  "map (\<lambda>g. fst (create_labware sample_env
                  \<lparr>study_uuids = [''s1'' \<mapsto> ''uuid of s1''],
                   plate_purpose_uuids = [PLATE \<mapsto> ''uuid of Plate Lysate'',
                                          TUBE_RACK \<mapsto> ''uuid of TR Lysate'']\<rparr> g))
     [(''A'', [sample_row ''A'' ''s1''])] =
   map Inr [\<lparr>barcode = ''A'', body = ''created'', successful = True\<rparr>]"
  by (simp add: create_labware_def sample_env_def sample_row_def HTTP_CREATED_def)

lemma axz_unknown:
  "determine_labware_type sample_env ''X'' [sample_row ''X'' ''s1''] \<noteq> Inr PLATE"
  "determine_labware_type sample_env ''X'' [sample_row ''X'' ''s1''] \<noteq> Inr TUBE_RACK"
  by (simp_all add: sample_env_def)

text \<open>
  C5: when the classifier gives a container neither \<open>PLATE\<close> nor \<open>TUBE_RACK\<close> (or
  raises), and no collaborator has raised for the containers before it, \<open>run\<close> ends
  with an exception at that container: the one the classifier raised, or the one
  \<open>create_labwares\<close> raises for a type it cannot handle. The containers submitted are
  those before it; that container and the containers after it are neither submitted
  nor named by a marker update.
\<close>

theorem unknown_labware_aborts_run:
  assumes "fst (get_unwrangled_labware (MLWH_DB_TABLE env) (CGAP_EXTRACTION_DESTINATION env) wh)
           = Inr rows"
    and "fst (get_study_uuids env (remdups (map study rows))) = Inr uuids"
    and "fst (get_plate_purpose_uuid env) = Inr pp"
    and "fst (get_tube_rack_purpose_uuid env) = Inr rp"
    and "groupby container_barcode rows = pre @ (bc, container_rows) # post"
    and "map (\<lambda>g. fst (create_labware env
                  \<lparr>study_uuids = uuids, plate_purpose_uuids = [PLATE \<mapsto> pp, TUBE_RACK \<mapsto> rp]\<rparr> g))
           pre = map Inr rs"
    and "determine_labware_type env bc container_rows \<noteq> Inr PLATE"
    and "determine_labware_type env bc container_rows \<noteq> Inr TUBE_RACK"
  shows "fst (run env wh) =
           Inl (case determine_labware_type env bc container_rows of
                  Inl e \<Rightarrow> e | Inr t \<Rightarrow> UnhandledLabwareType t)
       \<and> submitted (snd (snd (run env wh))) = map fst pre
       \<and> set (concat (marked (snd (snd (run env wh))))) \<subseteq> set (map fst pre)
       \<and> bc \<notin> set (submitted (snd (snd (run env wh))))
       \<and> bc \<notin> set (concat (marked (snd (snd (run env wh)))))
       \<and> list_all (\<lambda>g. fst g \<notin> set (submitted (snd (snd (run env wh))))
                      \<and> fst g \<notin> set (concat (marked (snd (snd (run env wh)))))) post"
proof -
  let ?kw = "\<lparr>study_uuids = uuids, plate_purpose_uuids = [PLATE \<mapsto> pp, TUBE_RACK \<mapsto> rp]\<rparr>"
  let ?e = "case determine_labware_type env bc container_rows of
              Inl e \<Rightarrow> e | Inr t \<Rightarrow> UnhandledLabwareType t"
  define L where "L = for_groups env ?kw None (groupby container_barcode rows) wh"
  have ne: "rows \<noteq> []" using assms(5) by auto
  note rl = run_loop_calls [OF assms(1) ne assms(2-4) L_def]
  have t: "tables wh (MLWH_DB_TABLE env) \<noteq> None"
    using fetch_ok(2) [OF assms(1)] by auto
  have "(bc, container_rows) \<in> set (groupby container_barcode rows)"
    unfolding assms(5) by simp
  from groupby_groups [OF this] have "container_rows \<noteq> []" by simp
  with assms(7,8) have bad: "create_labware env ?kw (bc, container_rows) = (Inl ?e, [Classify bc])"
    by (rule create_labware_unrecognised)
  from for_groups_abort [OF assms(5) assms(6) bad t, of None, folded L_def]
  have res: "fst L = Inl ?e"
    and cc: "filter is_container_call (snd (snd L)) =
               concat (map (\<lambda>g. snd (create_labware env ?kw g)) pre) @ [Classify bc]"
    by blast+
  have "submitted [Classify bc] = []" by (simp add: submitted_def)
  then have "submitted (concat (map (\<lambda>g. snd (create_labware env ?kw g)) pre) @ [Classify bc])
               = map fst pre"
    unfolding submitted_append outcomes_in_order(2) [OF assms(6)] by simp
  then have "submitted (filter is_container_call (snd (snd L))) = map fst pre"
    unfolding cc .
  then have sub: "submitted (snd (snd L)) = map fst pre"
    unfolding submitted_container_calls .
  have "marks_follow_submits [] (snd (snd L))"
    unfolding L_def by (rule for_groups_marks_follow) simp
  from marks_among_submitted [OF this]
  have mk: "set (concat (marked (snd (snd L)))) \<subseteq> set (map fst pre)"
    unfolding sub by simp
  have "sorted (map container_barcode rows)"
    using assms(1) by (rule fetch_ok(3))
  then have "distinct (map fst (groupby container_barcode rows))"
    by (rule groupby_distinct)
  then have "distinct (map fst pre @ bc # map fst post)"
    unfolding assms(5) by simp
  then have d: "bc \<notin> set (map fst pre)" "list_all (\<lambda>g. fst g \<notin> set (map fst pre)) post"
    by (auto simp: list_all_iff)
  have d1: "bc \<notin> set (submitted (snd (snd L)))"
    unfolding sub by (rule d(1))
  have d2: "bc \<notin> set (concat (marked (snd (snd L))))"
    using mk d(1) by blast
  have d3: "list_all (\<lambda>g. fst g \<notin> set (submitted (snd (snd L)))
                      \<and> fst g \<notin> set (concat (marked (snd (snd L))))) post"
    using mk d(2) unfolding sub list_all_iff by blast
  show ?thesis
    unfolding rl(1) rl(3) rl(4) by (intro conjI) (fact res sub mk d1 d2 d3)+
qed

theorem unknown_labware_aborts_run_witness:
  "fst (run sample_env (sample_wh axz_rows)) = Inl (UnhandledLabwareType (OTHER_LABWARE ''box''))
   \<and> submitted (snd (snd (run sample_env (sample_wh axz_rows)))) = [''A'']
   \<and> ''X'' \<notin> set (submitted (snd (snd (run sample_env (sample_wh axz_rows)))))
   \<and> ''Z'' \<notin> set (concat (marked (snd (snd (run sample_env (sample_wh axz_rows))))))"
proof -
  have "(case determine_labware_type sample_env ''X'' [sample_row ''X'' ''s1''] of
           Inl e \<Rightarrow> e | Inr t \<Rightarrow> UnhandledLabwareType t) =
        UnhandledLabwareType (OTHER_LABWARE ''box'')"
    by (simp add: sample_env_def)
  then show ?thesis
    using unknown_labware_aborts_run [OF axz_fetch axz_study_uuids abc_purposes axz_groups
        axz_outcomes axz_unknown]
    by simp
qed

subsection \<open>The study lookup of \<open>create_labwares\<close>\<close>







end
